theory Spec2Isabelle
  imports Complex_Main "HOL-Library.Word"
begin

unbundle bit_operations_syntax

section \<open>Judgement types\<close>

text \<open>The enumerations of the ruleset package: \<open>Grade\<close>, \<open>ClickAction\<close> and \<open>ComboResult\<close>.
  The source's \<open>_C\<close> is written \<open>C'\<close>.\<close>

datatype Grade = NONE | D | C' | B | A | S | SH | SS | SSH

datatype ClickAction = Ignored | Shake | Click

datatype ComboResult = Reset | Hold | Increase

text \<open>\<open>Tolerance2B\<close>, in milliseconds.\<close>

definition Tolerance2B :: real where
  "Tolerance2B = 3"

subsection \<open>Hit results\<close>

text \<open>Modelled from the spec: the declaration of \<open>HitResult\<close> is not among the source files;
  the ruleset uses it as an integer bit set (\<open>result&BaseHitsM\<close>, \<open>result |= GekiAddition\<close>)
  whose flags are the tiers of a base judgement (top, good, ok, miss), the slider parts, the
  spinner parts and the combo-end additions. Each flag is one bit; \<open>Ignore\<close> is the empty set.\<close>

type_synonym HitResult = int

definition Ignore :: HitResult where "Ignore = 0"
definition SliderMiss :: HitResult where "SliderMiss = 2"
definition Miss :: HitResult where "Miss = 4"
definition Hit50 :: HitResult where "Hit50 = 8"
definition Hit100 :: HitResult where "Hit100 = 16"
definition Hit300 :: HitResult where "Hit300 = 32"
definition SliderStart :: HitResult where "SliderStart = 64"
definition SliderPoint :: HitResult where "SliderPoint = 128"
definition SliderRepeat :: HitResult where "SliderRepeat = 256"
definition SliderEnd :: HitResult where "SliderEnd = 512"
definition SpinnerSpin :: HitResult where "SpinnerSpin = 1024"
definition SpinnerPoints :: HitResult where "SpinnerPoints = 2048"
definition SpinnerBonus :: HitResult where "SpinnerBonus = 4096"
definition MuAddition :: HitResult where "MuAddition = 8192"
definition KatuAddition :: HitResult where "KatuAddition = 16384"
definition GekiAddition :: HitResult where "GekiAddition = 32768"
definition PositionalMiss :: HitResult where "PositionalMiss = 65536"

definition BaseHits :: HitResult where
  "BaseHits = Hit50 OR Hit100 OR Hit300"

definition BaseHitsM :: HitResult where
  "BaseHitsM = BaseHits OR Miss"

definition SliderHits :: HitResult where
  "SliderHits = SliderStart OR SliderPoint OR SliderRepeat OR SliderEnd"

subsection \<open>Modifiers\<close>

text \<open>Modelled from the spec: the \<open>difficulty\<close> package is not among the source files. A
  \<open>Modifier\<close> is the active modifier bit set of a player; the flags carry the values of the
  osu! modifier enumeration, and \<open>Active\<close> (also behind \<open>CheckModActive\<close>) holds when any of
  the asked flags is set, which is how \<open>failInternal\<close> asks for
  \<open>NoFail|Relax|Relax2\<close> and \<open>SendResult\<close> for \<open>SuddenDeath|Perfect\<close>.\<close>

type_synonym Modifier = int

definition NoFail :: Modifier where "NoFail = 1"
definition Easy :: Modifier where "Easy = 2"
definition Hidden :: Modifier where "Hidden = 8"
definition SuddenDeath :: Modifier where "SuddenDeath = 32"
definition Relax :: Modifier where "Relax = 128"
definition Flashlight :: Modifier where "Flashlight = 1024"
definition Relax2 :: Modifier where "Relax2 = 8192"
definition Perfect :: Modifier where "Perfect = 16384"

definition Active :: "Modifier \<Rightarrow> Modifier \<Rightarrow> bool" where
  "Active mods m \<longleftrightarrow> mods AND m > 0"

section \<open>Health processor\<close>

text \<open>Modelled from the spec: \<open>HealthProcessor\<close> is not among the source files. The spec
  gives HP a fixed range with floor 0 and ceiling 200, clamped on every mutation; a judgement
  adds a signed delta from a lookup table keyed by the judgement; the passive drain subtracts
  the passive rate times the time since the last tick; and a drain made as a fail check that
  leaves HP at the floor raises the fail event, which runs the listeners registered with
  \<open>AddFailListener\<close>. The spec leaves open whether the passive drain is a fail check:
  \<open>DrainFails\<close> says so. \<open>Increase\<close>, \<open>AddResult\<close> and \<open>Update\<close> return the processor
  and whether the fail event is raised; the ruleset functions below run the registered
  listener, \<open>failInternal\<close>, on that flag.\<close>

definition MaxHp :: real where
  "MaxHp = 200"

record HealthProcessor =
  Health :: real
  HpDelta :: "HitResult \<Rightarrow> real"
  PassiveDrain :: real
  lastTime :: int
  DrainFails :: bool

definition ClampF :: "real \<Rightarrow> real \<Rightarrow> real \<Rightarrow> real" where
  "ClampF v lo hi = min hi (max lo v)"

definition hp_Increase :: "HealthProcessor \<Rightarrow> real \<Rightarrow> bool \<Rightarrow> HealthProcessor \<times> bool" where
  "hp_Increase hp amount fromHitObject =
     (let h = ClampF (Health hp + amount) 0 MaxHp
      in (hp\<lparr>Health := h\<rparr>, h \<le> 0 \<and> fromHitObject))"

definition hp_AddResult :: "HealthProcessor \<Rightarrow> HitResult \<Rightarrow> HealthProcessor \<times> bool" where
  "hp_AddResult hp result = hp_Increase hp (HpDelta hp result) True"

definition hp_Update :: "HealthProcessor \<Rightarrow> int \<Rightarrow> HealthProcessor \<times> bool" where
  "hp_Update hp time =
     (let (h, fire) =
            hp_Increase hp (- (PassiveDrain hp * real_of_int (time - lastTime hp))) (DrainFails hp)
      in (h\<lparr>lastTime := time\<rparr>, fire))"

section \<open>Players and their sub-sets\<close>

text \<open>\<open>difficultyPlayer\<close> with the fields of its cursor and difficulty that the ruleset
  reads: the cursor's identity and its \<open>IsReplay\<close>, \<open>IsAutoplay\<close>, \<open>IsPlayer\<close> flags, and
  \<open>diff.Mods\<close>.\<close>

record difficultyPlayer =
  cursor :: nat
  IsReplay :: bool
  IsAutoplay :: bool
  IsPlayer :: bool
  diffMods :: Modifier

definition CheckModActive :: "difficultyPlayer \<Rightarrow> Modifier \<Rightarrow> bool" where
  "CheckModActive p m = Active (diffMods p) m"

record PerformanceResult =
  PP :: real
  Stars :: real

record Score =
  ScoreValue_ :: int
  Accuracy :: real
  ScoreGrade :: Grade
  Combo :: nat
  PerfectCombo :: bool
  Count300 :: nat
  CountGeki :: nat
  Count100 :: nat
  CountKatu :: nat
  Count50 :: nat
  CountMiss :: nat
  CountSB :: nat
  ScorePP :: real
  Mods :: Modifier

text \<open>\<open>subSet\<close>: the state the ruleset keeps for one cursor. The score processor is an
  interface value; its state has type \<open>'sp\<close>. The counters are Go's \<open>uint\<close>, \<open>int\<close> and
  \<open>int64\<close>; they are unbounded here, a session being far too short to reach 2^63
  judgements.\<close>

record 'sp subSet =
  player :: difficultyPlayer
  score :: Score
  hp :: HealthProcessor
  scoreProcessor :: 'sp
  rawScore :: int
  currentKatu :: int
  currentBad :: int
  numObjects :: nat
  performance :: PerformanceResult
  recoveries :: int
  failed :: bool
  sdpfFail :: bool
  forceFail :: bool

section \<open>The ruleset\<close>

text \<open>What a listener receives. \<open>HitEvent\<close> is a call of the hit listener (cursor, time,
  number, x, y, result, combo result, performance, score), \<open>EndEvent\<close> a call of the end listener,
  \<open>FailEvent\<close> a call of the fail listener.\<close>

datatype event =
  HitEvent nat int int real real HitResult ComboResult PerformanceResult int
  | EndEvent int int
  | FailEvent nat

text \<open>The beatmap's objects (\<open>objects.IHitObject\<close>) with what the ruleset asks of them.\<close>

datatype ObjType = CIRCLE | SLIDER | SPINNER

record IHitObject =
  StartTime :: real
  EndTime :: real
  NewCombo :: bool
  StackIndex :: "Modifier \<Rightarrow> int"
  GetType :: ObjType

text \<open>The ruleset's own objects (the \<open>HitObject\<close> interface): the sequence number,
  the fade time, the kind the type assertions look at, and for which cursors the object is
  hit.\<close>

record HitObject =
  Number :: int
  FadeTime :: int
  Kind :: ObjType
  IsHit :: "nat \<Rightarrow> bool"


text \<open>The parts of \<open>OsuRuleSet\<close> shared by all cursors. \<open>oppDiffs\<close> is a Go map to
  slices: a key it does not hold gives the empty slice. Of \<open>pp220930.Attributes\<close> only
  \<open>MaxCombo\<close> is read. Of a listener only whether it is
  registered is kept; \<open>IgnoreFailsInReplays\<close> is the gameplay setting of that name.\<close>

record Attributes =
  MaxCombo :: int

record OsuRuleSet =
  HitObjects :: "IHitObject list"
  oppDiffs :: "Modifier \<Rightarrow> Attributes list"
  queue :: "HitObject list"
  processed :: "HitObject list"
  ended :: bool
  hasHitListener :: bool
  hasEndListener :: bool
  hasFailListener :: bool
  IgnoreFailsInReplays :: bool

datatype panic = IndexOutOfRange

subsection \<open>failInternal\<close>

text \<open>\<open>failInternal\<close> for the sub-set of the player, \<open>set.cursors[player.cursor]\<close>. The
  recovery raises HP without a fail check, so no fail event comes out of it.\<close>

definition failInternal :: "OsuRuleSet \<Rightarrow> 'sp subSet \<Rightarrow> 'sp subSet \<times> event list" where
  "failInternal rs s =
     (if IsReplay (player s) \<and> IgnoreFailsInReplays rs then (s, [])
      else if \<not> forceFail s \<and> CheckModActive (player s) (NoFail OR Relax OR Relax2) then (s, [])
      else if recoveries s > 0 \<and> \<not> sdpfFail s \<and> \<not> forceFail s then
        (s\<lparr>hp := fst (hp_Increase (hp s) 160 False), recoveries := recoveries s - 1\<rparr>, [])
      else
        (s\<lparr>failed := True\<rparr>,
         if hasFailListener rs \<and> \<not> failed s then [FailEvent (cursor (player s))] else []))"

text \<open>A call of \<open>hp.Increase\<close> from the ruleset: the processor changes, and the listener
  that \<open>NewOsuRuleset\<close> registered runs \<open>failInternal\<close> when the fail event is raised.\<close>

definition Increase_hp :: "OsuRuleSet \<Rightarrow> 'sp subSet \<Rightarrow> real \<Rightarrow> bool \<Rightarrow> 'sp subSet \<times> event list" where
  "Increase_hp rs s amount fromHitObject =
     (let (h, fire) = hp_Increase (hp s) amount fromHitObject;
          s1 = s\<lparr>hp := h\<rparr>
      in if fire then failInternal rs s1 else (s1, []))"

definition AddResult_hp :: "OsuRuleSet \<Rightarrow> 'sp subSet \<Rightarrow> HitResult \<Rightarrow> 'sp subSet \<times> event list" where
  "AddResult_hp rs s result =
     (let (h, fire) = hp_AddResult (hp s) result;
          s1 = s\<lparr>hp := h\<rparr>
      in if fire then failInternal rs s1 else (s1, []))"

subsection \<open>PlayerStopped\<close>

text \<open>Go's conversion \<open>int64(x)\<close> of a float: truncation towards zero.\<close>

definition int64_of_float :: "real \<Rightarrow> int" where
  "int64_of_float x = (if x \<ge> 0 then \<lfloor>x\<rfloor> else \<lceil>x\<rceil>)"

definition PlayerStopped :: "OsuRuleSet \<Rightarrow> 'sp subSet \<Rightarrow> int \<Rightarrow> panic + ('sp subSet \<times> event list)" where
  "PlayerStopped rs s time =
     (if HitObjects rs = [] then Inl IndexOutOfRange
      else if time < int64_of_float (EndTime (last (HitObjects rs))) - 1 then
        Inr (Increase_hp rs (s\<lparr>forceFail := True\<rparr>) (- 10000) True)
      else Inr (s, []))"

subsection \<open>What SendResult calls\<close>

text \<open>The \<open>scoreProcessor\<close> interface, over the processor's state. \<open>GetCombo\<close> returns an
  \<open>int64\<close>, which \<open>SendResult\<close> converts to \<open>uint\<close>. \<open>ModifyResult\<close> and the two getters
  only read the processor.\<close>

record 'sp scoreProcessor_ops =
  AddResult :: "'sp \<Rightarrow> HitResult \<Rightarrow> ComboResult \<Rightarrow> 'sp"
  ModifyResult :: "'sp \<Rightarrow> HitResult \<Rightarrow> HitObject \<Rightarrow> HitResult"
  GetScore :: "'sp \<Rightarrow> int"
  GetCombo :: "'sp \<Rightarrow> 64 word"

record ScoreParams =
  ParamMode :: nat
  ParamMods :: nat
  ParamMaxCombo :: nat
  ParamAccuracy :: real
  ParamMissCount :: nat
  PassedObjects :: nat

text \<open>What \<open>SendResult\<close> calls and the source files do not hold: the score processor,
  \<open>HitResult.ScoreValue\<close>, the performance calculator behind \<open>rosuPP.Calculate\<close> and
  \<open>difficulty.GetDiffMaskedMods\<close>. They are parameters of the model.\<close>

record 'sp externals =
  proc :: "'sp scoreProcessor_ops"
  ScoreValue :: "HitResult \<Rightarrow> int"
  Calculate :: "ScoreParams \<Rightarrow> PerformanceResult"
  GetDiffMaskedMods :: "Modifier \<Rightarrow> Modifier"

text \<open>Go's conversion \<open>uint(x)\<close> of a signed integer, on a 64-bit platform.\<close>

definition uint_of_int :: "int \<Rightarrow> nat" where
  "uint_of_int x = nat (x mod 2 ^ 64)"

text \<open>Indexing a slice by a signed integer panics out of range.\<close>

definition index :: "'a list \<Rightarrow> int \<Rightarrow> 'a option" where
  "index xs i = (if 0 \<le> i \<and> i < int (length xs) then Some (xs ! nat i) else None)"

text \<open>Division and comparison of \<open>float64\<close> values where the divisor may be zero: a
  positive count over zero is +Inf, zero over zero is NaN, and every comparison with NaN is
  false.\<close>

datatype float64 = Fin real | PosInf | NaN

definition fdiv :: "nat \<Rightarrow> nat \<Rightarrow> float64" where
  "fdiv a b = (if b = 0 then (if a = 0 then NaN else PosInf) else Fin (real a / real b))"

fun fgt :: "float64 \<Rightarrow> real \<Rightarrow> bool" where
  "fgt (Fin x) k = (x > k)"
| "fgt PosInf k = True"
| "fgt NaN k = False"

fun flt :: "float64 \<Rightarrow> real \<Rightarrow> bool" where
  "flt (Fin x) k = (x < k)"
| "flt PosInf k = False"
| "flt NaN k = False"

text \<open>\<open>sort.Search\<close>: the binary search of Go's library, the smallest index in \<open>[0, n)\<close>
  at which \<open>f\<close> holds when \<open>f\<close> is monotone.\<close>

function search_loop :: "nat \<Rightarrow> nat \<Rightarrow> (nat \<Rightarrow> bool) \<Rightarrow> nat" where
  "search_loop i j f =
     (if i < j then
        (let h = (i + j) div 2
         in if \<not> f h then search_loop (h + 1) j f else search_loop i h f)
      else i)"
  by pat_completeness auto
termination
  by (relation "measure (\<lambda>(i, j, f). j - i)") auto

definition Search :: "nat \<Rightarrow> (nat \<Rightarrow> bool) \<Rightarrow> nat" where
  "Search n f = search_loop 0 n f"

subsection \<open>SendResult\<close>

text \<open>The override of the judgement under SuddenDeath and Perfect: the adjusted result, the
  adjusted combo result and the new \<open>sdpfFail\<close>.\<close>

definition sdpfOverride ::
  "Modifier \<Rightarrow> HitResult \<Rightarrow> ComboResult \<Rightarrow> bool \<Rightarrow> HitResult \<times> ComboResult \<times> bool" where
  "sdpfOverride mods result comboResult sdpf =
     (if (Active mods (SuddenDeath OR Perfect) \<and> comboResult = Reset) \<or>
         (Active mods Perfect \<and> (result AND BaseHitsM > 0 \<and> result AND BaseHitsM \<noteq> Hit300))
      then
        (if result AND BaseHitsM > 0 then Miss
         else if result AND SliderHits > 0 then SliderMiss
         else result,
         Reset, True)
      else (result, comboResult, sdpf))"

text \<open>The tallies: \<open>CountSB\<close>, and for a base judgement \<open>rawScore\<close>, the count of its tier
  and \<open>numObjects\<close>.\<close>

definition countTier :: "HitResult \<Rightarrow> Score \<Rightarrow> Score" where
  "countTier bResult sc =
     (if bResult = Hit300 then sc\<lparr>Count300 := Count300 sc + 1\<rparr>
      else if bResult = Hit100 then sc\<lparr>Count100 := Count100 sc + 1\<rparr>
      else if bResult = Hit50 then sc\<lparr>Count50 := Count50 sc + 1\<rparr>
      else if bResult = Miss then sc\<lparr>CountMiss := CountMiss sc + 1\<rparr>
      else sc)"

definition tally :: "'sp externals \<Rightarrow> HitResult \<Rightarrow> ComboResult \<Rightarrow> 'sp subSet \<Rightarrow> 'sp subSet" where
  "tally ext result comboResult s =
     (let s1 = (if comboResult = Reset \<and> result \<noteq> Miss
                then s\<lparr>score := (score s)\<lparr>CountSB := CountSB (score s) + 1\<rparr>\<rparr> else s);
          bResult = result AND BaseHitsM
      in if bResult > 0 then
           s1\<lparr>rawScore := rawScore s1 + ScoreValue ext result,
              score := countTier bResult (score s1),
              numObjects := numObjects s1 + 1\<rparr>
         else s1)"

text \<open>The published max combo and the accuracy. The accuracy is a \<open>float64\<close>; the counts
  of a session are small enough for its arithmetic to be exact, and it is a real here.\<close>

definition comboAccuracy :: "'sp externals \<Rightarrow> 'sp subSet \<Rightarrow> 'sp subSet" where
  "comboAccuracy ext s =
     (let c = max (unat (GetCombo (proc ext) (scoreProcessor s))) (Combo (score s));
          acc = (if numObjects s = 0 then 100
                 else 100 * real_of_int (rawScore s) / real (numObjects s * 300))
      in s\<lparr>score := (score s)\<lparr>Combo := c, Accuracy := acc\<rparr>\<rparr>)"

text \<open>The grade ladder over the counts of 300s, 50s and misses and the number of judged
  objects.\<close>

definition gradeLadder :: "Modifier \<Rightarrow> nat \<Rightarrow> nat \<Rightarrow> nat \<Rightarrow> nat \<Rightarrow> Grade" where
  "gradeLadder mods c300 c50 cMiss n =
     (let ratio = fdiv c300 n
      in if c300 = n then
           (if mods AND (Hidden OR Flashlight) > 0 then SSH else SS)
         else if fgt ratio 0.9 \<and> flt (fdiv c50 n) 0.01 \<and> cMiss = 0 then
           (if mods AND (Hidden OR Flashlight) > 0 then SH else S)
         else if fgt ratio 0.8 \<and> cMiss = 0 \<or> fgt ratio 0.9 then A
         else if fgt ratio 0.7 \<and> cMiss = 0 \<or> fgt ratio 0.8 then B
         else if fgt ratio 0.6 then C'
         else D)"

definition grade :: "'sp subSet \<Rightarrow> 'sp subSet" where
  "grade s =
     s\<lparr>score := (score s)\<lparr>ScoreGrade :=
        gradeLadder (diffMods (player s)) (Count300 (score s)) (Count50 (score s))
          (CountMiss (score s)) (numObjects s)\<rparr>\<rparr>"

text \<open>The call of the performance calculator.\<close>

definition calcPerformance :: "'sp externals \<Rightarrow> 'sp subSet \<Rightarrow> 'sp subSet" where
  "calcPerformance ext s =
     (let params = \<lparr>ParamMode = 0,
                     ParamMods = uint_of_int (diffMods (player s)),
                     ParamMaxCombo = Combo (score s),
                     ParamAccuracy = Accuracy (score s),
                     ParamMissCount = CountMiss (score s),
                     PassedObjects = (if diffMods (player s) AND Relax > 0 then 0
                                      else numObjects s)\<rparr>
      in s\<lparr>performance := Calculate ext params\<rparr>)"

text \<open>The perfect-combo flag, from the difficulty attributes at the index of the last judged
  object, and the published performance.\<close>

definition perfectCombo :: "'sp externals \<Rightarrow> OsuRuleSet \<Rightarrow> 'sp subSet \<Rightarrow> panic + 'sp subSet" where
  "perfectCombo ext rs s =
     (let i = max 1 (numObjects s) - 1
      in case index (oppDiffs rs (GetDiffMaskedMods ext (diffMods (player s)))) (int i) of
           None \<Rightarrow> Inl IndexOutOfRange
         | Some diff \<Rightarrow>
             Inr (s\<lparr>score := (score s)\<lparr>PerfectCombo := (uint_of_int (MaxCombo diff) = Combo (score s)),
                                         ScorePP := PP (performance s)\<rparr>\<rparr>))"

text \<open>The running counts of 100s and of 50s and misses in the current combo.\<close>

definition katuBad :: "HitResult \<Rightarrow> 'sp subSet \<Rightarrow> 'sp subSet" where
  "katuBad result s =
     (if result = Hit100 then s\<lparr>currentKatu := currentKatu s + 1\<rparr>
      else if result = Hit50 \<or> result = Miss then s\<lparr>currentBad := currentBad s + 1\<rparr>
      else s)"

text \<open>The backward scan from the judged object to the previous new-combo boundary.\<close>

fun allClicked :: "IHitObject list \<Rightarrow> nat \<Rightarrow> HitObject list \<Rightarrow> panic + bool" where
  "allClicked hos c [] = Inr True"
| "allClicked hos c (obj # rest) =
     (if \<not> IsHit obj c then Inr False
      else case index hos (Number obj) of
             None \<Rightarrow> Inl IndexOutOfRange
           | Some ho \<Rightarrow> if NewCombo ho then Inr True else allClicked hos c rest)"

text \<open>The combo-end addition (geki, katu or mu) of the last object of a combo.\<close>

definition comboEnd ::
  "OsuRuleSet \<Rightarrow> int \<Rightarrow> HitResult \<Rightarrow> 'sp subSet \<Rightarrow> panic + (HitResult \<times> 'sp subSet)" where
  "comboEnd rs number result s =
     (let len = int (length (HitObjects rs));
          next = (if number = len - 1 then Inr True
                  else if number < len - 1 then
                    (case index (HitObjects rs) (number + 1) of
                       None \<Rightarrow> Inl IndexOutOfRange
                     | Some ho \<Rightarrow> Inr (NewCombo ho))
                  else Inr False)
      in if result AND BaseHitsM > 0 then
           (case next of
              Inl e \<Rightarrow> Inl e
            | Inr False \<Rightarrow> Inr (result, s)
            | Inr True \<Rightarrow>
                (let i = Search (length (processed rs)) (\<lambda>i. Number (processed rs ! i) \<ge> number)
                 in case allClicked (HitObjects rs) (cursor (player s)) (rev (take i (processed rs))) of
                      Inl e \<Rightarrow> Inl e
                    | Inr allC \<Rightarrow>
                        (let (r, s1) =
                               (if result AND BaseHits > 0 then
                                  (if currentKatu s = 0 \<and> currentBad s = 0 \<and> allC then
                                     (result OR GekiAddition,
                                      s\<lparr>score := (score s)\<lparr>CountGeki := CountGeki (score s) + 1\<rparr>\<rparr>)
                                   else if currentBad s = 0 \<and> allC then
                                     (result OR KatuAddition,
                                      s\<lparr>score := (score s)\<lparr>CountKatu := CountKatu (score s) + 1\<rparr>\<rparr>)
                                   else (result OR MuAddition, s))
                                else (result, s))
                         in Inr (r, s1\<lparr>currentBad := 0, currentKatu := 0\<rparr>))))
         else Inr (result, s))"

text \<open>The health update: the forced drain once \<open>sdpfFail\<close> is set, the judgement's delta
  otherwise.\<close>

definition health :: "OsuRuleSet \<Rightarrow> HitResult \<Rightarrow> 'sp subSet \<Rightarrow> 'sp subSet \<times> event list" where
  "health rs result s =
     (if sdpfFail s then Increase_hp rs s (- 100000) True else AddResult_hp rs s result)"

text \<open>\<open>SendResult\<close> for the cursor of \<open>s\<close>, which is \<open>set.cursors[cursor]\<close>. The ppv2
  calculator, whose result nothing reads, and the log lines are left out.\<close>

definition SendResult ::
  "'sp externals \<Rightarrow> OsuRuleSet \<Rightarrow> 'sp subSet \<Rightarrow> int \<Rightarrow> HitObject \<Rightarrow> real \<Rightarrow> real \<Rightarrow> HitResult \<Rightarrow>
     ComboResult \<Rightarrow> panic + ('sp subSet \<times> event list)" where
  "SendResult ext rs s time src x y result comboResult =
     (let number = Number src
      in if result = Ignore \<or> result = PositionalMiss then
           Inr (s,
             if result = PositionalMiss \<and> hasHitListener rs \<and> \<not> Active (diffMods (player s)) Relax
             then [HitEvent (cursor (player s)) time number x y result comboResult (performance s)
                     (GetScore (proc ext) (scoreProcessor s))]
             else [])
         else
           (let (result1, comboResult1, sdpf) =
                  sdpfOverride (diffMods (player s)) result comboResult (sdpfFail s);
                s1 = s\<lparr>sdpfFail := sdpf\<rparr>;
                result2 = ModifyResult (proc ext) (scoreProcessor s1) result1 src;
                s2 = s1\<lparr>scoreProcessor := AddResult (proc ext) (scoreProcessor s1) result2 comboResult1\<rparr>;
                s3 = s2\<lparr>score := (score s2)\<lparr>ScoreValue_ := GetScore (proc ext) (scoreProcessor s2)\<rparr>\<rparr>;
                s4 = calcPerformance ext (grade (comboAccuracy ext (tally ext result2 comboResult1 s3)))
            in case perfectCombo ext rs s4 of
                 Inl e \<Rightarrow> Inl e
               | Inr s5 \<Rightarrow>
                   (case comboEnd rs number result2 (katuBad result2 s5) of
                      Inl e \<Rightarrow> Inl e
                    | Inr (result3, s6) \<Rightarrow>
                        (let (s7, evs) = health rs result3 s6
                         in Inr (s7,
                              evs @ (if hasHitListener rs
                                     then [HitEvent (cursor (player s7)) time number x y result3
                                             comboResult1 (performance s7)
                                             (GetScore (proc ext) (scoreProcessor s7))]
                                     else []))))))"

subsection \<open>Update\<close>



text \<open>The health tick of one cursor: \<open>subSet.hp.Update(time)\<close>, with the registered
  listener run on the fail event.\<close>

definition healthTick :: "OsuRuleSet \<Rightarrow> int \<Rightarrow> 'sp subSet \<Rightarrow> 'sp subSet \<times> event list" where
  "healthTick rs time s =
     (let (h, fire) = hp_Update (hp s) time;
          s1 = s\<lparr>hp := h\<rparr>
      in if fire then failInternal rs s1 else (s1, []))"



subsection \<open>CanBeHit\<close>

text \<open>The scan of a replay cursor over \<open>processed\<close>: an unresolved object other than the
  clicked one shakes the click when it ends more than the tolerance before the clicked one
  starts; the scan stops at the clicked object when that is unresolved.\<close>

fun shakeScan :: "IHitObject list \<Rightarrow> nat \<Rightarrow> HitObject \<Rightarrow> HitObject list \<Rightarrow> panic + bool" where
  "shakeScan hos c object [] = Inr False"
| "shakeScan hos c object (g # gs) =
     (if \<not> IsHit g c then
        (if Number g \<noteq> Number object then
           (case index hos (Number g) of
              None \<Rightarrow> Inl IndexOutOfRange
            | Some gObj \<Rightarrow>
                (case index hos (Number object) of
                   None \<Rightarrow> Inl IndexOutOfRange
                 | Some oObj \<Rightarrow>
                     if EndTime gObj + Tolerance2B < StartTime oObj then Inr True
                     else shakeScan hos c object gs))
         else Inr False)
      else shakeScan hos c object gs)"

text \<open>The last index at which \<open>processed\<close> holds the object, or \<open>-1\<close>. Go compares the
  interface values, which are pointers; here two objects are the same when they are equal.\<close>

fun lastIndexOf :: "HitObject \<Rightarrow> HitObject list \<Rightarrow> int \<Rightarrow> int \<Rightarrow> int" where
  "lastIndexOf object [] i found = found"
| "lastIndexOf object (g # gs) i found =
     lastIndexOf object gs (i + 1) (if g = object then i else found)"

text \<open>The scan of an autoplay or player cursor: the last circle in \<open>processed\<close> that starts
  before the clicked object.\<close>

fun lastCircle ::
  "IHitObject list \<Rightarrow> IHitObject \<Rightarrow> HitObject list \<Rightarrow> (HitObject \<times> IHitObject) option \<Rightarrow>
     panic + (HitObject \<times> IHitObject) option" where
  "lastCircle hos cObj [] found = Inr found"
| "lastCircle hos cObj (g # gs) found =
     (case index hos (Number g) of
        None \<Rightarrow> Inl IndexOutOfRange
      | Some fObj \<Rightarrow>
          lastCircle hos cObj gs
            (if GetType fObj = CIRCLE \<and> StartTime fObj < StartTime cObj then Some (g, fObj)
             else found))"

text \<open>The last test of \<open>CanBeHit\<close>: the click is within the hittable range of the object's
  start. \<open>hittable\<close> stands for the constant \<open>difficulty.HittableRange\<close>, which the source
  files do not hold.\<close>

definition inRange :: "real \<Rightarrow> OsuRuleSet \<Rightarrow> int \<Rightarrow> HitObject \<Rightarrow> difficultyPlayer \<Rightarrow> panic + ClickAction" where
  "inRange hittable rs time object p =
     (let hitRange = (if CheckModActive p Relax2 then hittable - 200 else hittable)
      in case index (HitObjects rs) (Number object) of
           None \<Rightarrow> Inl IndexOutOfRange
         | Some oObj \<Rightarrow>
             if \<bar>real_of_int (time - int64_of_float (StartTime oObj))\<bar> \<ge> hitRange
             then Inr Shake else Inr Click)"

definition CanBeHit :: "real \<Rightarrow> OsuRuleSet \<Rightarrow> int \<Rightarrow> HitObject \<Rightarrow> difficultyPlayer \<Rightarrow> panic + ClickAction" where
  "CanBeHit hittable rs time object p =
     (if \<not> IsAutoplay p \<and> \<not> IsPlayer p then
        (let i = (if Kind object = CIRCLE then lastIndexOf object (processed rs) 0 (- 1) else - 1);
             stacked =
               (if Kind object = CIRCLE \<and> i > 0 then
                  (let prev = processed rs ! nat (i - 1)
                   in case index (HitObjects rs) (Number prev) of
                        None \<Rightarrow> Inl IndexOutOfRange
                      | Some pObj \<Rightarrow>
                          Inr (StackIndex pObj (diffMods p) > 0 \<and> \<not> IsHit prev (cursor p)))
                else Inr False)
         in case stacked of
              Inl e \<Rightarrow> Inl e
            | Inr True \<Rightarrow> Inr Ignored
            | Inr False \<Rightarrow>
                (case shakeScan (HitObjects rs) (cursor p) object (processed rs) of
                   Inl e \<Rightarrow> Inl e
                 | Inr True \<Rightarrow> Inr Shake
                 | Inr False \<Rightarrow> inRange hittable rs time object p))
      else
        (case index (HitObjects rs) (Number object) of
           None \<Rightarrow> Inl IndexOutOfRange
         | Some cObj \<Rightarrow>
             (case lastCircle (HitObjects rs) cObj (processed rs) None of
                Inl e \<Rightarrow> Inl e
              | Inr None \<Rightarrow> inRange hittable rs time object p
              | Inr (Some (lastObj, lastBObj)) \<Rightarrow>
                  if \<not> IsHit lastObj (cursor p) \<and> real_of_int time < StartTime lastBObj
                  then Inr Shake
                  else inRange hittable rs time object p)))"

subsection \<open>A session of one cursor\<close>

text \<open>What the ruleset does to the sub-set of one cursor in the course of a session: a
  judgement sent by a judge, the health tick of \<open>Update\<close>, and \<open>PlayerStopped\<close>. Each step
  carries the shared part of the ruleset at that moment.\<close>

datatype step =
  Judge OsuRuleSet int HitObject real real HitResult ComboResult
  | Tick OsuRuleSet int
  | Stop OsuRuleSet int

fun doStep :: "'sp externals \<Rightarrow> 'sp subSet \<Rightarrow> step \<Rightarrow> panic + ('sp subSet \<times> event list)" where
  "doStep ext s (Judge rs time src x y result comboResult) =
     SendResult ext rs s time src x y result comboResult"
| "doStep ext s (Tick rs time) = Inr (healthTick rs time s)"
| "doStep ext s (Stop rs time) = PlayerStopped rs s time"

text \<open>A session runs its steps in order and stops at a panic; it returns the sub-set after
  the last step and the listener calls in order.\<close>

fun session :: "'sp externals \<Rightarrow> 'sp subSet \<Rightarrow> step list \<Rightarrow> panic + ('sp subSet \<times> event list)" where
  "session ext s [] = Inr (s, [])"
| "session ext s (st # sts) =
     (case doStep ext s st of
        Inl e \<Rightarrow> Inl e
      | Inr (s1, evs1) \<Rightarrow>
          (case session ext s1 sts of
             Inl e \<Rightarrow> Inl e
           | Inr (s2, evs2) \<Rightarrow> Inr (s2, evs1 @ evs2)))"

subsection \<open>NewOsuRuleset\<close>

text \<open>The sub-set that \<open>NewOsuRuleset\<close> makes for a cursor, from the player, the cursor's
  modifiers, the health processor after \<open>ResetHp\<close> and the score processor after \<open>Init\<close>:
  two recoveries under Easy, accuracy 100, everything else zero.\<close>

definition NewSubSet :: "difficultyPlayer \<Rightarrow> Modifier \<Rightarrow> HealthProcessor \<Rightarrow> 'sp \<Rightarrow> 'sp subSet" where
  "NewSubSet p mods h sc =
     \<lparr>player = p,
      score = \<lparr>ScoreValue_ = 0, Accuracy = 100, ScoreGrade = NONE, Combo = 0,
               PerfectCombo = False, Count300 = 0, CountGeki = 0, Count100 = 0, CountKatu = 0,
               Count50 = 0, CountMiss = 0, CountSB = 0, ScorePP = 0, Mods = mods\<rparr>,
      hp = h,
      scoreProcessor = sc,
      rawScore = 0, currentKatu = 0, currentBad = 0, numObjects = 0,
      performance = \<lparr>PP = 0, Stars = 0\<rparr>,
      recoveries = (if CheckModActive p Easy then 2 else 0),
      failed = False, sdpfFail = False, forceFail = False\<rparr>"

section \<open>An example session\<close>

text \<open>A beatmap of a circle at 1000 ms and a slider from 2000 ms to 3000 ms with ten ticks, a
  replay cursor, and simple stand-ins for the parameters: a score processor that only counts
  the combo, the tier values 300, 100 and 50, and a calculator that returns zero.\<close>

definition comboCounter :: "(64 word) scoreProcessor_ops" where
  "comboCounter =
     \<lparr>AddResult = (\<lambda>c r cr. case cr of Increase \<Rightarrow> c + 1 | Reset \<Rightarrow> 0 | Hold \<Rightarrow> c),
      ModifyResult = (\<lambda>c r src. r),
      GetScore = (\<lambda>c. 0),
      GetCombo = (\<lambda>c. c)\<rparr>"

definition tierValue :: "HitResult \<Rightarrow> int" where
  "tierValue r =
     (if r AND BaseHitsM = Hit300 then 300
      else if r AND BaseHitsM = Hit100 then 100
      else if r AND BaseHitsM = Hit50 then 50
      else 0)"

definition exampleExt :: "(64 word) externals" where
  "exampleExt =
     \<lparr>proc = comboCounter,
      ScoreValue = tierValue,
      Calculate = (\<lambda>p. \<lparr>PP = 0, Stars = 0\<rparr>),
      GetDiffMaskedMods = (\<lambda>m. m)\<rparr>"

definition exampleCircle :: HitObject where
  "exampleCircle = \<lparr>Number = 0, FadeTime = 600, Kind = CIRCLE, IsHit = (\<lambda>c. False)\<rparr>"

definition exampleSlider :: HitObject where
  "exampleSlider = \<lparr>Number = 1, FadeTime = 1600, Kind = SLIDER, IsHit = (\<lambda>c. False)\<rparr>"

definition exampleRuleSet :: OsuRuleSet where
  "exampleRuleSet =
     \<lparr>HitObjects =
        [\<lparr>StartTime = 1000, EndTime = 1000, NewCombo = True, StackIndex = (\<lambda>m. 0),
          GetType = CIRCLE\<rparr>,
         \<lparr>StartTime = 2000, EndTime = 3000, NewCombo = False, StackIndex = (\<lambda>m. 0),
          GetType = SLIDER\<rparr>],
      oppDiffs = (\<lambda>m. [\<lparr>MaxCombo = 1\<rparr>, \<lparr>MaxCombo = 13\<rparr>]),
      queue = [exampleCircle, exampleSlider],
      processed = [],
      ended = False,
      hasHitListener = True,
      hasEndListener = True,
      hasFailListener = True,
      IgnoreFailsInReplays = False\<rparr>"

definition examplePlayer :: "Modifier \<Rightarrow> difficultyPlayer" where
  "examplePlayer mods =
     \<lparr>cursor = 0, IsReplay = True, IsAutoplay = False, IsPlayer = False, diffMods = mods\<rparr>"

definition exampleHp :: HealthProcessor where
  "exampleHp =
     \<lparr>Health = MaxHp, HpDelta = (\<lambda>r. if r AND Miss > 0 then - 20 else 5),
      PassiveDrain = 1 / 100, lastTime = 0, DrainFails = False\<rparr>"

definition exampleSubSet :: "Modifier \<Rightarrow> (64 word) subSet" where
  "exampleSubSet mods = NewSubSet (examplePlayer mods) mods exampleHp 0"

text \<open>The sub-set without modifiers after a Miss on the circle, and after the slider's head
  is then hit; the sub-set with Hidden after a 300 on the circle; the sub-set with Perfect
  after a 100 on the circle.\<close>

definition afterMiss :: "(64 word) subSet" where
  "afterMiss =
     (exampleSubSet 0)
       \<lparr>score := (score (exampleSubSet 0))\<lparr>Accuracy := 0, ScoreGrade := D, CountMiss := 1\<rparr>,
        hp := exampleHp\<lparr>Health := 180\<rparr>, currentBad := 1, numObjects := 1\<rparr>"

definition afterStart :: "(64 word) subSet" where
  "afterStart =
     afterMiss
       \<lparr>score := (score afterMiss)\<lparr>Combo := 1, PerfectCombo := True\<rparr>,
        hp := exampleHp\<lparr>Health := 185\<rparr>, scoreProcessor := 1\<rparr>"

definition afterHit300 :: "(64 word) subSet" where
  "afterHit300 =
     (exampleSubSet Hidden)
       \<lparr>score := (score (exampleSubSet Hidden))
                 \<lparr>ScoreGrade := SSH, Combo := 1, PerfectCombo := True, Count300 := 1\<rparr>,
        scoreProcessor := 1, rawScore := 300, numObjects := 1\<rparr>"

definition afterPerfect :: "(64 word) subSet" where
  "afterPerfect =
     (exampleSubSet Perfect)
       \<lparr>score := (score (exampleSubSet Perfect))\<lparr>Accuracy := 0, ScoreGrade := D, CountMiss := 1\<rparr>,
        hp := exampleHp\<lparr>Health := 0\<rparr>, currentBad := 1, numObjects := 1,
        failed := True, sdpfFail := True\<rparr>"

text \<open>A third object for the example beatmap, a circle at 2500 ms under the slider; the slider
  and this circle are active.\<close>

definition overlapCircle :: HitObject where
  "overlapCircle = \<lparr>Number = 2, FadeTime = 2100, Kind = CIRCLE, IsHit = (\<lambda>c. False)\<rparr>"

definition overlapRuleSet :: OsuRuleSet where
  "overlapRuleSet =
     exampleRuleSet
       \<lparr>HitObjects := HitObjects exampleRuleSet @
          [\<lparr>StartTime = 2500, EndTime = 2500, NewCombo = False, StackIndex = (\<lambda>m. 0),
            GetType = CIRCLE\<rparr>],
        queue := [],
        processed := [exampleSlider, overlapCircle]\<rparr>"

text \<open>A spinner from 4000 ms to 5000 ms as third object of the example beatmap, active, and
  the sub-set with SuddenDeath after a spinner part sent with Reset.\<close>

definition exampleSpinner :: HitObject where
  "exampleSpinner = \<lparr>Number = 2, FadeTime = 3600, Kind = SPINNER, IsHit = (\<lambda>c. False)\<rparr>"

definition spinnerRuleSet :: OsuRuleSet where
  "spinnerRuleSet =
     exampleRuleSet
       \<lparr>HitObjects := HitObjects exampleRuleSet @
          [\<lparr>StartTime = 4000, EndTime = 5000, NewCombo = True, StackIndex = (\<lambda>m. 0),
            GetType = SPINNER\<rparr>],
        queue := [],
        processed := [exampleSpinner]\<rparr>"

definition afterSpinner :: "(64 word) subSet" where
  "afterSpinner =
     (exampleSubSet SuddenDeath)
       \<lparr>score := (score (exampleSubSet SuddenDeath))\<lparr>ScoreGrade := SS, CountSB := 1\<rparr>,
        hp := exampleHp\<lparr>Health := 0\<rparr>, failed := True, sdpfFail := True\<rparr>"

section \<open>Notions for the proofs\<close>

text \<open>The number of calls of the fail listener among the listener calls.\<close>

fun isFail :: "event \<Rightarrow> bool" where
  "isFail (FailEvent c) = True"
| "isFail (HitEvent c t n x y r cr p sc) = False"
| "isFail (EndEvent t n) = False"

definition fails :: "event list \<Rightarrow> nat" where
  "fails evs = length (filter isFail evs)"

text \<open>What one operation may do to the failed flag and the fail listener: a failed player
  stays failed and the listener stays silent; the listener is called at most once, and then
  the player is failed.\<close>

definition once :: "'sp subSet \<Rightarrow> event list \<Rightarrow> 'sp subSet \<Rightarrow> bool" where
  "once s evs s' \<longleftrightarrow>
     (failed s \<longrightarrow> failed s' \<and> fails evs = 0) \<and> fails evs \<le> 1 \<and> (fails evs = 1 \<longrightarrow> failed s')"

text \<open>The sub-set once a judgement is scored: the tallies, the published max combo and
  accuracy, the grade and the performance, as \<open>SendResult\<close> computes them in this order; and
  once the adjusted judgement is recorded: the score processor is updated first.\<close>

definition scored :: "'sp externals \<Rightarrow> HitResult \<Rightarrow> ComboResult \<Rightarrow> 'sp subSet \<Rightarrow> 'sp subSet" where
  "scored ext r c s = calcPerformance ext (grade (comboAccuracy ext (tally ext r c s)))"

definition recorded ::
  "'sp externals \<Rightarrow> HitObject \<Rightarrow> HitResult \<Rightarrow> ComboResult \<Rightarrow> bool \<Rightarrow> 'sp subSet \<Rightarrow> 'sp subSet" where
  "recorded ext src r1 c1 sd s =
     (let r2 = ModifyResult (proc ext) (scoreProcessor s) r1 src;
          sp = AddResult (proc ext) (scoreProcessor s) r2 c1
      in scored ext r2 c1
           (s\<lparr>sdpfFail := sd, scoreProcessor := sp,
              score := (score s)\<lparr>ScoreValue_ := GetScore (proc ext) sp\<rparr>\<rparr>))"

text \<open>The parts of a sub-set that only the scoring of a judgement changes, and the parts
  that the scoring leaves alone.\<close>

definition tallies ::
  "'sp subSet \<Rightarrow> 'sp \<times> difficultyPlayer \<times> int \<times> nat \<times> (nat \<times> real \<times> Grade) \<times> nat \<times> nat \<times> nat \<times> nat" where
  "tallies s =
     (scoreProcessor s, player s, rawScore s, numObjects s,
      (Combo (score s), Accuracy (score s), ScoreGrade (score s)),
      Count300 (score s), Count100 (score s), Count50 (score s), CountMiss (score s))"

definition vitals :: "'sp subSet \<Rightarrow> HealthProcessor \<times> bool" where
  "vitals s = (hp s, sdpfFail s)"

text \<open>The published max combo is at least the processor's combo.\<close>

definition comboInv :: "'sp externals \<Rightarrow> 'sp subSet \<Rightarrow> bool" where
  "comboInv ext s \<longleftrightarrow> sint (GetCombo (proc ext) (scoreProcessor s)) \<le> int (Combo (score s))"

text \<open>The raw score is between zero and 300 per judged object, and the accuracy is the one
  computed from them.\<close>

definition accInv :: "'sp subSet \<Rightarrow> bool" where
  "accInv s \<longleftrightarrow>
     0 \<le> rawScore s \<and> rawScore s \<le> 300 * int (numObjects s) \<and>
     Accuracy (score s) =
       (if numObjects s = 0 then 100
        else 100 * real_of_int (rawScore s) / real (numObjects s * 300))"

text \<open>The judgement that the override leaves of a base judgement or a slider part.\<close>

definition adjusted :: "HitResult \<Rightarrow> HitResult" where
  "adjusted result = (if result AND BaseHitsM > 0 then Miss else SliderMiss)"

section \<open>Proofs\<close>

lemmas HitResult_defs =
  Ignore_def SliderMiss_def Miss_def Hit50_def Hit100_def Hit300_def SliderStart_def
  SliderPoint_def SliderRepeat_def SliderEnd_def SpinnerSpin_def SpinnerPoints_def
  SpinnerBonus_def MuAddition_def KatuAddition_def GekiAddition_def PositionalMiss_def
  BaseHits_def BaseHitsM_def SliderHits_def

lemmas Modifier_defs =
  NoFail_def Easy_def Hidden_def SuddenDeath_def Relax_def Flashlight_def Relax2_def
  Perfect_def

subsection \<open>The fail transition\<close>

lemma fails_simps [simp]:
  "fails [] = 0"
  "fails (FailEvent c # evs) = Suc (fails evs)"
  "fails (HitEvent c t n x y r cr p sc # evs) = fails evs"
  "fails (EndEvent t n # evs) = fails evs"
  "fails (xs @ ys) = fails xs + fails ys"
  by (simp_all add: fails_def)

lemma once_refl [simp]: "once s [] s"
  by (simp add: once_def)

lemma once_trans: "once s e1 s1 \<Longrightarrow> once s1 e2 s2 \<Longrightarrow> once s (e1 @ e2) s2"
  by (auto simp: once_def)

lemma failInternal_once: "once s (snd (failInternal rs s)) (fst (failInternal rs s))"
  by (simp add: failInternal_def once_def)

lemma fire_once:
  "once s (snd (if fire then failInternal rs (s\<lparr>hp := h\<rparr>) else (s\<lparr>hp := h\<rparr>, [])))
          (fst (if fire then failInternal rs (s\<lparr>hp := h\<rparr>) else (s\<lparr>hp := h\<rparr>, [])))"
proof (cases fire)
  case True
  have "once (s\<lparr>hp := h\<rparr>) (snd (failInternal rs (s\<lparr>hp := h\<rparr>))) (fst (failInternal rs (s\<lparr>hp := h\<rparr>)))"
    by (rule failInternal_once)
  with True show ?thesis by (simp add: once_def)
next
  case False
  then show ?thesis by (simp add: once_def)
qed

lemma Increase_hp_once: "once s (snd (Increase_hp rs s a b)) (fst (Increase_hp rs s a b))"
  using fire_once [of s "snd (hp_Increase (hp s) a b)" rs "fst (hp_Increase (hp s) a b)"]
  by (simp add: Increase_hp_def split_beta Let_def)

lemma AddResult_hp_eq: "AddResult_hp rs s r = Increase_hp rs s (HpDelta (hp s) r) True"
  by (simp add: AddResult_hp_def Increase_hp_def hp_AddResult_def)

lemma health_once: "once s (snd (health rs r s)) (fst (health rs r s))"
  by (simp add: health_def AddResult_hp_eq Increase_hp_once)

lemma healthTick_once: "once s (snd (healthTick rs t s)) (fst (healthTick rs t s))"
  using fire_once [of s "snd (hp_Update (hp s) t)" rs "fst (hp_Update (hp s) t)"]
  by (simp add: healthTick_def split_beta Let_def)

lemma PlayerStopped_once:
  assumes "PlayerStopped rs s t = Inr (s', evs)"
  shows "once s evs s'"
proof (cases "t < int64_of_float (EndTime (last (HitObjects rs))) - 1")
  case True
  with assms have out: "Increase_hp rs (s\<lparr>forceFail := True\<rparr>) (- 10000) True = (s', evs)"
    by (simp add: PlayerStopped_def split: if_splits)
  from Increase_hp_once [of "s\<lparr>forceFail := True\<rparr>" rs "- 10000" True] out
  show ?thesis by (simp add: once_def)
next
  case False
  with assms show ?thesis by (simp add: PlayerStopped_def split: if_splits)
qed

lemma failed_tally [simp]: "failed (tally ext r c s) = failed s"
  by (simp add: tally_def Let_def)

lemma failed_comboAccuracy [simp]: "failed (comboAccuracy ext s) = failed s"
  by (simp add: comboAccuracy_def Let_def)

lemma failed_grade [simp]: "failed (grade s) = failed s"
  by (simp add: grade_def)

lemma failed_calcPerformance [simp]: "failed (calcPerformance ext s) = failed s"
  by (simp add: calcPerformance_def Let_def)

lemma failed_perfectCombo: "perfectCombo ext rs s = Inr s' \<Longrightarrow> failed s' = failed s"
  by (auto simp: perfectCombo_def Let_def split: option.splits)

lemma failed_katuBad [simp]: "failed (katuBad r s) = failed s"
  by (simp add: katuBad_def)

lemma failed_comboEnd: "comboEnd rs n r s = Inr (r', s') \<Longrightarrow> failed s' = failed s"
  by (auto simp: comboEnd_def Let_def split: option.splits sum.splits if_splits bool.splits prod.splits)

lemma SendResult_once:
  assumes "SendResult ext rs s time src x y result comboResult = Inr (s', evs)"
  shows "once s evs s'"
proof (cases "result = Ignore \<or> result = PositionalMiss")
  case True
  with assms show ?thesis by (auto simp: SendResult_def Let_def once_def split: if_splits)
next
  case False
  obtain r1 c1 sd where
    ov: "sdpfOverride (diffMods (player s)) result comboResult (sdpfFail s) = (r1, c1, sd)"
    by (cases "sdpfOverride (diffMods (player s)) result comboResult (sdpfFail s)") auto
  from assms False ov obtain s5 r3 s6 where
    s5: "failed s5 = failed s" and
    s6: "comboEnd rs (Number src) (ModifyResult (proc ext) (scoreProcessor s) r1 src)
           (katuBad (ModifyResult (proc ext) (scoreProcessor s) r1 src) s5) = Inr (r3, s6)" and
    out: "s' = fst (health rs r3 s6)" "fails evs = fails (snd (health rs r3 s6))"
    by (auto simp: SendResult_def Let_def split: sum.splits prod.splits if_splits
        dest!: failed_perfectCombo)
  from s6 s5 have "failed s6 = failed s" by (auto dest!: failed_comboEnd)
  with health_once [of s6 rs r3] out show ?thesis by (simp add: once_def)
qed

lemma doStep_once: "doStep ext s st = Inr (s', evs) \<Longrightarrow> once s evs s'"
proof (cases st)
  case (Judge rs time src x y result comboResult)
  assume "doStep ext s st = Inr (s', evs)"
  with Judge show ?thesis by (simp add: SendResult_once)
next
  case (Tick rs time)
  assume "doStep ext s st = Inr (s', evs)"
  with Tick healthTick_once [of s rs time] show ?thesis by auto
next
  case (Stop rs time)
  assume "doStep ext s st = Inr (s', evs)"
  with Stop show ?thesis by (simp add: PlayerStopped_once)
qed

lemma session_once: "session ext s sts = Inr (s', evs) \<Longrightarrow> once s evs s'"
proof (induction sts arbitrary: s s' evs)
  case Nil
  then show ?case by simp
next
  case (Cons st sts)
  from Cons.prems obtain s1 e1 e2 where
    a: "doStep ext s st = Inr (s1, e1)" and b: "session ext s1 sts = Inr (s', e2)" and
    c: "evs = e1 @ e2"
    by (auto split: sum.splits prod.splits)
  from doStep_once [OF a] Cons.IH [OF b] c show ?case by (simp add: once_trans)
qed

lemma session_append:
  "session ext s xs = Inr (s1, e1) \<Longrightarrow> session ext s1 ys = Inr (s2, e2) \<Longrightarrow>
   session ext s (xs @ ys) = Inr (s2, e1 @ e2)"
  by (induction xs arbitrary: s s1 e1) (auto split: sum.splits prod.splits)

text \<open>C1. For every player, once the failed flag is true it stays true for the rest of the
  session, and the fail listener is called at most once in the whole session: when a session
  has run the steps \<open>xs\<close> and goes on with any steps \<open>ys\<close> (judgements, health ticks, stops;
  each may trigger the fail transition), a player failed after \<open>xs\<close> is failed after \<open>ys\<close>
  and \<open>ys\<close> calls the fail listener no more, and \<open>xs\<close> and \<open>ys\<close> together call it at most
  once.\<close>

theorem failed_is_terminal_and_listener_fires_at_most_once:
  assumes "session ext s xs = Inr (s1, e1)" and "session ext s1 ys = Inr (s2, e2)"
  shows "(failed s1 \<longrightarrow> failed s2 \<and> fails e2 = 0) \<and> fails (e1 @ e2) \<le> 1"
proof -
  have "once s1 e2 s2" using assms(2) by (rule session_once)
  moreover have "once s (e1 @ e2) s2"
    using session_once [OF session_append [OF assms]] .
  ultimately show ?thesis unfolding once_def by blast
qed

lemmas example_defs =
  exampleExt_def comboCounter_def tierValue_def exampleCircle_def exampleSlider_def
  exampleRuleSet_def examplePlayer_def exampleHp_def exampleSubSet_def NewSubSet_def
  afterMiss_def afterStart_def afterHit300_def afterPerfect_def overlapCircle_def
  overlapRuleSet_def

lemmas spinner_defs = exampleSpinner_def spinnerRuleSet_def afterSpinner_def

theorem failed_is_terminal_and_listener_fires_at_most_once_witness:
  "session exampleExt (exampleSubSet 0) [Stop exampleRuleSet 0] =
     Inr ((exampleSubSet 0)\<lparr>forceFail := True, hp := exampleHp\<lparr>Health := 0\<rparr>, failed := True\<rparr>,
          [FailEvent 0]) \<and>
   session exampleExt
     ((exampleSubSet 0)\<lparr>forceFail := True, hp := exampleHp\<lparr>Health := 0\<rparr>, failed := True\<rparr>)
     [Tick exampleRuleSet 10, Stop exampleRuleSet 20] =
     Inr ((exampleSubSet 0)
            \<lparr>forceFail := True, hp := exampleHp\<lparr>Health := 0, lastTime := 10\<rparr>, failed := True\<rparr>,
          []) \<and>
   fails ([FailEvent 0] @ []) \<le> 1"
proof -
  let ?s1 = "(exampleSubSet 0)\<lparr>forceFail := True, hp := exampleHp\<lparr>Health := 0\<rparr>, failed := True\<rparr>"
  have a: "session exampleExt (exampleSubSet 0) [Stop exampleRuleSet 0] = Inr (?s1, [FailEvent 0])"
    by (simp add: example_defs PlayerStopped_def Increase_hp_def hp_Increase_def failInternal_def
        ClampF_def MaxHp_def int64_of_float_def CheckModActive_def Active_def Modifier_defs)
  have b: "session exampleExt ?s1 [Tick exampleRuleSet 10, Stop exampleRuleSet 20] =
      Inr ((exampleSubSet 0)
             \<lparr>forceFail := True, hp := exampleHp\<lparr>Health := 0, lastTime := 10\<rparr>, failed := True\<rparr>,
           [])"
    by (simp add: example_defs PlayerStopped_def Increase_hp_def hp_Increase_def failInternal_def
        healthTick_def hp_Update_def ClampF_def MaxHp_def int64_of_float_def CheckModActive_def
        Active_def Modifier_defs)
  from failed_is_terminal_and_listener_fires_at_most_once [OF a b] a b show ?thesis
    by simp
qed

subsection \<open>Recovery credits and the forced fail\<close>

text \<open>C4. When the fail transition of a player runs (fails are not ignored for the replay)
  and would fail the player (no fail-preventing modifier), with a positive count of recovery
  credits and neither a sudden-death/perfect override nor a forced fail pending, exactly one
  credit is consumed, HP is raised by the fixed amount 160 (clamped to the HP range), the fail
  listener is not called and nothing else changes. When the transition occurs with zero
  credits remaining, the registered fail listener is called and the player is failed.\<close>

theorem recovery_credit_or_fail:
  assumes "\<not> (IsReplay (player s) \<and> IgnoreFailsInReplays rs)"
  shows "(0 < recoveries s \<and> \<not> sdpfFail s \<and> \<not> forceFail s \<and>
          \<not> CheckModActive (player s) (NoFail OR Relax OR Relax2) \<longrightarrow>
            failInternal rs s =
              (s\<lparr>hp := (hp s)\<lparr>Health := ClampF (Health (hp s) + 160) 0 MaxHp\<rparr>,
                 recoveries := recoveries s - 1\<rparr>, [])) \<and>
         (recoveries s = 0 \<and> (forceFail s \<or> \<not> CheckModActive (player s) (NoFail OR Relax OR Relax2)) \<and>
          hasFailListener rs \<and> \<not> failed s \<longrightarrow>
            failInternal rs s = (s\<lparr>failed := True\<rparr>, [FailEvent (cursor (player s))]))"
  using assms by (auto simp: failInternal_def hp_Increase_def Let_def)

theorem recovery_credit_or_fail_witness:
  "failInternal exampleRuleSet ((exampleSubSet Easy)\<lparr>hp := exampleHp\<lparr>Health := 0\<rparr>\<rparr>) =
     ((exampleSubSet Easy)\<lparr>hp := exampleHp\<lparr>Health := 160\<rparr>, recoveries := 1\<rparr>, []) \<and>
   failInternal exampleRuleSet ((exampleSubSet 0)\<lparr>hp := exampleHp\<lparr>Health := 0\<rparr>\<rparr>) =
     ((exampleSubSet 0)\<lparr>hp := exampleHp\<lparr>Health := 0\<rparr>, failed := True\<rparr>, [FailEvent 0])"
proof -
  have g: "\<not> (IsReplay (player ((exampleSubSet m)\<lparr>hp := exampleHp\<lparr>Health := 0\<rparr>\<rparr>)) \<and>
              IgnoreFailsInReplays exampleRuleSet)" for m
    by (simp add: example_defs)
  from recovery_credit_or_fail [OF g [of Easy]] recovery_credit_or_fail [OF g [of 0]]
  show ?thesis
    by (simp add: example_defs ClampF_def MaxHp_def CheckModActive_def Active_def Modifier_defs)
qed

text \<open>C10, as the code has it. If \<open>PlayerStopped\<close> is called for a player at a time
  earlier than the last hit object's end time minus 1 ms, the forced-fail flag is set, and
  unless fails are ignored for the cursor (a replay cursor with fails ignored in replays) the
  fail transition that results calls the registered fail listener and fails the player who
  has not failed before, whatever the player's modifiers (so also under NoFail, Relax or
  Autopilot) and whatever the count of recovery credits, which stays as it is. HP is within
  its range.\<close>

theorem early_stop_forces_fail:
  assumes "HitObjects rs \<noteq> []"
    and "time < int64_of_float (EndTime (last (HitObjects rs))) - 1"
    and "\<not> (IsReplay (player s) \<and> IgnoreFailsInReplays rs)"
    and "hasFailListener rs" and "\<not> failed s" and "Health (hp s) \<le> MaxHp"
  shows "PlayerStopped rs s time =
           Inr (s\<lparr>forceFail := True, hp := (hp s)\<lparr>Health := 0\<rparr>, failed := True\<rparr>,
                [FailEvent (cursor (player s))])"
  using assms
  by (auto simp: PlayerStopped_def Increase_hp_def hp_Increase_def failInternal_def Let_def
      ClampF_def MaxHp_def)

theorem early_stop_forces_fail_witness:
  "CheckModActive (player (exampleSubSet (NoFail OR Easy))) (NoFail OR Relax OR Relax2) \<and>
   recoveries (exampleSubSet (NoFail OR Easy)) = 2 \<and>
   PlayerStopped exampleRuleSet (exampleSubSet (NoFail OR Easy)) 2000 =
     Inr ((exampleSubSet (NoFail OR Easy))
            \<lparr>forceFail := True, hp := exampleHp\<lparr>Health := 0\<rparr>, failed := True\<rparr>,
          [FailEvent 0])"
proof -
  have "HitObjects exampleRuleSet \<noteq> []"
    and "2000 < int64_of_float (EndTime (last (HitObjects exampleRuleSet))) - 1"
    and "\<not> (IsReplay (player (exampleSubSet (NoFail OR Easy))) \<and> IgnoreFailsInReplays exampleRuleSet)"
    and "hasFailListener exampleRuleSet" and "\<not> failed (exampleSubSet (NoFail OR Easy))"
    and "Health (hp (exampleSubSet (NoFail OR Easy))) \<le> MaxHp"
    by (simp_all add: example_defs int64_of_float_def)
  from early_stop_forces_fail [OF this] show ?thesis
    by (simp add: example_defs CheckModActive_def Active_def Modifier_defs)
qed

text \<open>C10 as it is claimed fails for a replay cursor when fails are ignored in replays:
  the early stop sets the forced-fail flag and drains HP, but \<open>failInternal\<close> returns at its
  first guard, the fail listener is not called and the player is not failed.\<close>

theorem early_stop_ignored_for_replay:
  "IsReplay (player (exampleSubSet 0)) \<and>
   hasFailListener (exampleRuleSet\<lparr>IgnoreFailsInReplays := True\<rparr>) \<and>
   PlayerStopped (exampleRuleSet\<lparr>IgnoreFailsInReplays := True\<rparr>) (exampleSubSet 0) 2000 =
     Inr ((exampleSubSet 0)\<lparr>forceFail := True, hp := exampleHp\<lparr>Health := 0\<rparr>\<rparr>, []) \<and>
   \<not> failed ((exampleSubSet 0)\<lparr>forceFail := True, hp := exampleHp\<lparr>Health := 0\<rparr>\<rparr>)"
  by (simp add: PlayerStopped_def Increase_hp_def hp_Increase_def failInternal_def ClampF_def
      MaxHp_def int64_of_float_def example_defs)

subsection \<open>The anatomy of SendResult\<close>

lemma SendResult_ignored:
  "result = Ignore \<or> result = PositionalMiss \<Longrightarrow>
   SendResult ext rs s time src x y result comboResult = Inr (s', evs) \<Longrightarrow> s' = s"
  by (auto simp: SendResult_def Let_def split: if_splits)

lemma SendResult_decomp:
  assumes "SendResult ext rs s time src x y result comboResult = Inr (s', evs)"
    and "result \<noteq> Ignore" and "result \<noteq> PositionalMiss"
  obtains r1 c1 sd r2 s4 s5 r3 s6 evh where
    "sdpfOverride (diffMods (player s)) result comboResult (sdpfFail s) = (r1, c1, sd)"
    "r2 = ModifyResult (proc ext) (scoreProcessor s) r1 src"
    "s4 = recorded ext src r1 c1 sd s"
    "perfectCombo ext rs s4 = Inr s5"
    "comboEnd rs (Number src) r2 (katuBad r2 s5) = Inr (r3, s6)"
    "health rs r3 s6 = (s', evh)"
    "evs = evh @ (if hasHitListener rs
                  then [HitEvent (cursor (player s')) time (Number src) x y r3 c1 (performance s')
                          (GetScore (proc ext) (scoreProcessor s'))]
                  else [])"
proof -
  obtain r1 c1 sd where
    ov: "sdpfOverride (diffMods (player s)) result comboResult (sdpfFail s) = (r1, c1, sd)"
    by (cases "sdpfOverride (diffMods (player s)) result comboResult (sdpfFail s)") auto
  show ?thesis
    using assms ov
    by (auto simp: SendResult_def recorded_def scored_def Let_def
        split: sum.splits prod.splits intro!: that)
qed

lemma SendResult_compose:
  assumes "result \<noteq> Ignore" and "result \<noteq> PositionalMiss"
    and "sdpfOverride (diffMods (player s)) result comboResult (sdpfFail s) = (r1, c1, sd)"
    and "ModifyResult (proc ext) (scoreProcessor s) r1 src = r2"
    and "recorded ext src r1 c1 sd s = s4"
    and "perfectCombo ext rs s4 = Inr s5"
    and "comboEnd rs (Number src) r2 (katuBad r2 s5) = Inr (r3, s6)"
    and "health rs r3 s6 = (s7, evh)"
  shows "SendResult ext rs s time src x y result comboResult =
           Inr (s7, evh @ (if hasHitListener rs
                           then [HitEvent (cursor (player s7)) time (Number src) x y r3 c1
                                   (performance s7) (GetScore (proc ext) (scoreProcessor s7))]
                           else []))"
  using assms by (auto simp: SendResult_def recorded_def scored_def Let_def)

lemma scored_fields:
  "Combo (score (scored ext r c s)) =
     max (unat (GetCombo (proc ext) (scoreProcessor s))) (Combo (score s))"
  "scoreProcessor (scored ext r c s) = scoreProcessor s"
  "player (scored ext r c s) = player s"
  "numObjects (scored ext r c s) = numObjects s + (if r AND BaseHitsM > 0 then 1 else 0)"
  "rawScore (scored ext r c s) = rawScore s + (if r AND BaseHitsM > 0 then ScoreValue ext r else 0)"
  by (simp_all add: scored_def calcPerformance_def grade_def comboAccuracy_def tally_def
      countTier_def Let_def)

lemma scored_accuracy:
  "Accuracy (score (scored ext r c s)) =
     (if numObjects (scored ext r c s) = 0 then 100
      else 100 * real_of_int (rawScore (scored ext r c s)) /
           real (numObjects (scored ext r c s) * 300))"
  by (simp add: scored_def calcPerformance_def grade_def comboAccuracy_def tally_def
      countTier_def Let_def)

lemma scored_grade:
  "ScoreGrade (score (scored ext r c s)) =
     gradeLadder (diffMods (player s)) (Count300 (score (scored ext r c s)))
       (Count50 (score (scored ext r c s))) (CountMiss (score (scored ext r c s)))
       (numObjects (scored ext r c s))"
  by (simp add: scored_def calcPerformance_def grade_def comboAccuracy_def tally_def
      countTier_def Let_def)

lemma tallies_eqD:
  assumes "tallies s' = tallies t"
  shows "scoreProcessor s' = scoreProcessor t" "player s' = player t" "rawScore s' = rawScore t"
    "numObjects s' = numObjects t" "Combo (score s') = Combo (score t)"
    "Accuracy (score s') = Accuracy (score t)" "ScoreGrade (score s') = ScoreGrade (score t)"
    "Count300 (score s') = Count300 (score t)" "Count100 (score s') = Count100 (score t)"
    "Count50 (score s') = Count50 (score t)" "CountMiss (score s') = CountMiss (score t)"
  using assms by (simp_all add: tallies_def)

lemma tallies_failInternal: "tallies (fst (failInternal rs s)) = tallies s"
  by (simp add: failInternal_def tallies_def)

lemma tallies_fire:
  "tallies (fst (if fire then failInternal rs (s\<lparr>hp := h\<rparr>) else (s\<lparr>hp := h\<rparr>, []))) = tallies s"
  using tallies_failInternal [of rs "s\<lparr>hp := h\<rparr>"] by (simp add: tallies_def)

lemma tallies_Increase_hp: "tallies (fst (Increase_hp rs s a b)) = tallies s"
  using tallies_fire [where fire = "snd (hp_Increase (hp s) a b)" and rs = rs and s = s
      and h = "fst (hp_Increase (hp s) a b)"]
  by (simp add: Increase_hp_def split_beta Let_def)

lemma tallies_health: "tallies (fst (health rs r s)) = tallies s"
  by (simp add: health_def AddResult_hp_eq tallies_Increase_hp)

lemma tallies_healthTick: "tallies (fst (healthTick rs t s)) = tallies s"
  using tallies_fire [where fire = "snd (hp_Update (hp s) t)" and rs = rs and s = s
      and h = "fst (hp_Update (hp s) t)"]
  by (simp add: healthTick_def split_beta Let_def)

lemma tallies_PlayerStopped: "PlayerStopped rs s t = Inr (s', evs) \<Longrightarrow> tallies s' = tallies s"
  using tallies_Increase_hp [of rs "s\<lparr>forceFail := True\<rparr>" "- 10000" True]
  by (auto simp: PlayerStopped_def tallies_def split: if_splits)

lemma tallies_perfectCombo: "perfectCombo ext rs s = Inr s' \<Longrightarrow> tallies s' = tallies s"
  by (auto simp: perfectCombo_def Let_def tallies_def split: option.splits)

lemma tallies_katuBad: "tallies (katuBad r s) = tallies s"
  by (simp add: katuBad_def tallies_def)

lemma tallies_comboEnd: "comboEnd rs n r s = Inr (r', s') \<Longrightarrow> tallies s' = tallies s"
  by (auto simp: comboEnd_def Let_def tallies_def
      split: option.splits sum.splits if_splits bool.splits prod.splits)

lemma SendResult_tallies:
  assumes "SendResult ext rs s time src x y result comboResult = Inr (s', evs)"
    and "result \<noteq> Ignore" and "result \<noteq> PositionalMiss"
  obtains r1 c1 sd where
    "sdpfOverride (diffMods (player s)) result comboResult (sdpfFail s) = (r1, c1, sd)"
    "tallies s' = tallies (recorded ext src r1 c1 sd s)"
proof -
  from assms obtain r1 c1 sd r2 s4 s5 r3 s6 evh where d:
    "sdpfOverride (diffMods (player s)) result comboResult (sdpfFail s) = (r1, c1, sd)"
    "s4 = recorded ext src r1 c1 sd s"
    "perfectCombo ext rs s4 = Inr s5"
    "comboEnd rs (Number src) r2 (katuBad r2 s5) = Inr (r3, s6)"
    "health rs r3 s6 = (s', evh)"
    by (rule SendResult_decomp)
  have "tallies s' = tallies s6" using tallies_health [of rs r3 s6] d(5) by simp
  also have "\<dots> = tallies s5" using tallies_comboEnd [OF d(4)] by (simp add: tallies_katuBad)
  also have "\<dots> = tallies s4" using tallies_perfectCombo [OF d(3)] .
  finally have "tallies s' = tallies (recorded ext src r1 c1 sd s)" using d(2) by simp
  with d(1) show ?thesis by (rule that)
qed

lemma doStep_tallies:
  assumes "doStep ext s st = Inr (s', evs)"
  shows "tallies s' = tallies s \<or>
         (\<exists>src r1 c1 sd. tallies s' = tallies (recorded ext src r1 c1 sd s))"
proof (cases st)
  case (Judge rs time src x y result comboResult)
  with assms have sr: "SendResult ext rs s time src x y result comboResult = Inr (s', evs)"
    by simp
  show ?thesis
  proof (cases "result = Ignore \<or> result = PositionalMiss")
    case True
    from True sr have "s' = s" by (rule SendResult_ignored)
    then show ?thesis by simp
  next
    case False
    with sr obtain r1 c1 sd where "tallies s' = tallies (recorded ext src r1 c1 sd s)"
      by (auto elim: SendResult_tallies)
    then show ?thesis by blast
  qed
next
  case (Tick rs time)
  with assms show ?thesis using tallies_healthTick [of rs time s] by auto
next
  case (Stop rs time)
  with assms show ?thesis by (simp add: tallies_PlayerStopped)
qed

subsection \<open>The examples, evaluated\<close>

lemma example_miss:
  "SendResult exampleExt exampleRuleSet (exampleSubSet 0) 1100 exampleCircle 0 0 Miss Reset =
     Inr (afterMiss, [HitEvent 0 1100 0 0 0 Miss Reset \<lparr>PP = 0, Stars = 0\<rparr> 0])"
proof -
  let ?s4 = "(exampleSubSet 0)
       \<lparr>score := (score (exampleSubSet 0))\<lparr>Accuracy := 0, ScoreGrade := D, CountMiss := 1\<rparr>,
        numObjects := 1\<rparr>"
  have 1: "Miss \<noteq> Ignore" "Miss \<noteq> PositionalMiss" by (simp_all add: HitResult_defs)
  have 2: "sdpfOverride (diffMods (player (exampleSubSet 0))) Miss Reset (sdpfFail (exampleSubSet 0)) =
             (Miss, Reset, False)"
    by (simp add: sdpfOverride_def example_defs Active_def)
  have 3: "ModifyResult (proc exampleExt) (scoreProcessor (exampleSubSet 0)) Miss exampleCircle = Miss"
    by (simp add: example_defs)
  have 4: "recorded exampleExt exampleCircle Miss Reset False (exampleSubSet 0) = ?s4"
    by (simp add: recorded_def scored_def calcPerformance_def grade_def gradeLadder_def fdiv_def
      comboAccuracy_def tally_def countTier_def Let_def example_defs HitResult_defs uint_of_int_def)
  have 5: "perfectCombo exampleExt exampleRuleSet ?s4 = Inr ?s4"
    by (simp add: perfectCombo_def index_def uint_of_int_def example_defs)
  have 6: "comboEnd exampleRuleSet (Number exampleCircle) Miss (katuBad Miss ?s4) =
             Inr (Miss, ?s4\<lparr>currentBad := 1\<rparr>)"
    by (simp add: comboEnd_def katuBad_def index_def example_defs HitResult_defs)
  have 7: "health exampleRuleSet Miss (?s4\<lparr>currentBad := 1\<rparr>) = (afterMiss, [])"
    by (simp add: health_def AddResult_hp_def hp_AddResult_def hp_Increase_def ClampF_def
        MaxHp_def example_defs HitResult_defs)
  from SendResult_compose [OF 1 2 3 4 5 6 7, of 1100 0 0]
  show ?thesis by (simp add: example_defs)
qed

lemma example_start:
  "SendResult exampleExt exampleRuleSet afterMiss 2000 exampleSlider 0 0 SliderStart Increase =
     Inr (afterStart, [HitEvent 0 2000 1 0 0 SliderStart Increase \<lparr>PP = 0, Stars = 0\<rparr> 0])"
proof -
  let ?s4 = "afterMiss\<lparr>score := (score afterMiss)\<lparr>Combo := 1\<rparr>, scoreProcessor := 1\<rparr>"
  let ?s5 = "afterMiss\<lparr>score := (score afterMiss)\<lparr>Combo := 1, PerfectCombo := True\<rparr>,
                        scoreProcessor := 1\<rparr>"
  have 1: "SliderStart \<noteq> Ignore" "SliderStart \<noteq> PositionalMiss" by (simp_all add: HitResult_defs)
  have 2: "sdpfOverride (diffMods (player afterMiss)) SliderStart Increase (sdpfFail afterMiss) =
             (SliderStart, Increase, False)"
    by (simp add: sdpfOverride_def example_defs Active_def)
  have 3: "ModifyResult (proc exampleExt) (scoreProcessor afterMiss) SliderStart exampleSlider =
             SliderStart"
    by (simp add: example_defs)
  have 4: "recorded exampleExt exampleSlider SliderStart Increase False afterMiss = ?s4"
    by (simp add: recorded_def scored_def calcPerformance_def grade_def gradeLadder_def fdiv_def
      comboAccuracy_def tally_def countTier_def Let_def example_defs HitResult_defs uint_of_int_def)
  have 5: "perfectCombo exampleExt exampleRuleSet ?s4 = Inr ?s5"
    by (simp add: perfectCombo_def index_def uint_of_int_def example_defs)
  have 6: "comboEnd exampleRuleSet (Number exampleSlider) SliderStart (katuBad SliderStart ?s5) =
             Inr (SliderStart, ?s5)"
    by (simp add: comboEnd_def katuBad_def index_def example_defs HitResult_defs)
  have 7: "health exampleRuleSet SliderStart ?s5 = (afterStart, [])"
    by (simp add: health_def AddResult_hp_def hp_AddResult_def hp_Increase_def ClampF_def
        MaxHp_def example_defs HitResult_defs)
  from SendResult_compose [OF 1 2 3 4 5 6 7, of 2000 0 0]
  show ?thesis by (simp add: example_defs)
qed

lemma example_hit300:
  "SendResult exampleExt exampleRuleSet (exampleSubSet Hidden) 1000 exampleCircle 0 0 Hit300 Increase =
     Inr (afterHit300, [HitEvent 0 1000 0 0 0 Hit300 Increase \<lparr>PP = 0, Stars = 0\<rparr> 0])"
proof -
  let ?s4 = "(exampleSubSet Hidden)
       \<lparr>score := (score (exampleSubSet Hidden))\<lparr>ScoreGrade := SSH, Combo := 1, Count300 := 1\<rparr>,
        scoreProcessor := 1, rawScore := 300, numObjects := 1\<rparr>"
  have 1: "Hit300 \<noteq> Ignore" "Hit300 \<noteq> PositionalMiss" by (simp_all add: HitResult_defs)
  have 2: "sdpfOverride (diffMods (player (exampleSubSet Hidden))) Hit300 Increase
             (sdpfFail (exampleSubSet Hidden)) = (Hit300, Increase, False)"
    by (simp add: sdpfOverride_def example_defs Active_def Modifier_defs)
  have 3: "ModifyResult (proc exampleExt) (scoreProcessor (exampleSubSet Hidden)) Hit300 exampleCircle =
             Hit300"
    by (simp add: example_defs)
  have 4: "recorded exampleExt exampleCircle Hit300 Increase False (exampleSubSet Hidden) = ?s4"
    by (simp add: recorded_def scored_def calcPerformance_def grade_def gradeLadder_def fdiv_def
      comboAccuracy_def tally_def countTier_def Let_def example_defs HitResult_defs Modifier_defs
      uint_of_int_def)
  have 5: "perfectCombo exampleExt exampleRuleSet ?s4 = Inr afterHit300"
    by (simp add: perfectCombo_def index_def uint_of_int_def example_defs)
  have 6: "comboEnd exampleRuleSet (Number exampleCircle) Hit300 (katuBad Hit300 afterHit300) =
             Inr (Hit300, afterHit300)"
    by (simp add: comboEnd_def katuBad_def index_def example_defs HitResult_defs)
  have 7: "health exampleRuleSet Hit300 afterHit300 = (afterHit300, [])"
    by (simp add: health_def AddResult_hp_def hp_AddResult_def hp_Increase_def ClampF_def
        MaxHp_def example_defs HitResult_defs)
  from SendResult_compose [OF 1 2 3 4 5 6 7, of 1000 0 0]
  show ?thesis by (simp add: example_defs)
qed

lemma example_perfect:
  "SendResult exampleExt exampleRuleSet (exampleSubSet Perfect) 1000 exampleCircle 0 0 Hit100 Increase =
     Inr (afterPerfect,
          [FailEvent 0, HitEvent 0 1000 0 0 0 Miss Reset \<lparr>PP = 0, Stars = 0\<rparr> 0])"
proof -
  let ?s4 = "(exampleSubSet Perfect)
       \<lparr>score := (score (exampleSubSet Perfect))\<lparr>Accuracy := 0, ScoreGrade := D, CountMiss := 1\<rparr>,
        numObjects := 1, sdpfFail := True\<rparr>"
  have 1: "Hit100 \<noteq> Ignore" "Hit100 \<noteq> PositionalMiss" by (simp_all add: HitResult_defs)
  have 2: "sdpfOverride (diffMods (player (exampleSubSet Perfect))) Hit100 Increase
             (sdpfFail (exampleSubSet Perfect)) = (Miss, Reset, True)"
    by (simp add: sdpfOverride_def example_defs Active_def Modifier_defs HitResult_defs)
  have 3: "ModifyResult (proc exampleExt) (scoreProcessor (exampleSubSet Perfect)) Miss exampleCircle =
             Miss"
    by (simp add: example_defs)
  have 4: "recorded exampleExt exampleCircle Miss Reset True (exampleSubSet Perfect) = ?s4"
    by (simp add: recorded_def scored_def calcPerformance_def grade_def gradeLadder_def fdiv_def
      comboAccuracy_def tally_def countTier_def Let_def example_defs HitResult_defs Modifier_defs
      uint_of_int_def)
  have 5: "perfectCombo exampleExt exampleRuleSet ?s4 = Inr ?s4"
    by (simp add: perfectCombo_def index_def uint_of_int_def example_defs)
  have 6: "comboEnd exampleRuleSet (Number exampleCircle) Miss (katuBad Miss ?s4) =
             Inr (Miss, ?s4\<lparr>currentBad := 1\<rparr>)"
    by (simp add: comboEnd_def katuBad_def index_def example_defs HitResult_defs)
  have 7: "health exampleRuleSet Miss (?s4\<lparr>currentBad := 1\<rparr>) = (afterPerfect, [FailEvent 0])"
    by (simp add: health_def Increase_hp_def hp_Increase_def failInternal_def ClampF_def
        MaxHp_def CheckModActive_def Active_def example_defs HitResult_defs Modifier_defs)
  from SendResult_compose [OF 1 2 3 4 5 6 7, of 1000 0 0]
  show ?thesis by (simp add: example_defs)
qed

subsection \<open>Max combo\<close>

lemma sint_le_max_unat: "sint (w :: 64 word) \<le> int (max (unat w) n)"
proof -
  have "sint w \<le> uint w"
    by (simp add: sint_uint signed_take_bit_int_less_eq_self_iff)
       (rule order_trans [of _ 0], simp_all)
  also have "\<dots> = int (unat w)" by simp
  also have "\<dots> \<le> int (max (unat w) n)" by (simp only: of_nat_le_iff max.cobounded1)
  finally show ?thesis .
qed

lemma recorded_combo:
  "Combo (score (recorded ext src r c sd s)) =
     max (unat (GetCombo (proc ext) (scoreProcessor (recorded ext src r c sd s)))) (Combo (score s))"
  by (simp add: recorded_def Let_def scored_fields)

lemma recorded_comboInv:
  "comboInv ext (recorded ext src r c sd s) \<and> Combo (score s) \<le> Combo (score (recorded ext src r c sd s))"
  unfolding comboInv_def recorded_combo by (simp add: sint_le_max_unat)

lemma comboInv_tallies: "tallies s' = tallies t \<Longrightarrow> comboInv ext s' = comboInv ext t"
  by (simp add: comboInv_def tallies_def)

lemma doStep_combo:
  assumes "doStep ext s st = Inr (s', evs)" and "comboInv ext s"
  shows "comboInv ext s' \<and> Combo (score s) \<le> Combo (score s')"
proof -
  from doStep_tallies [OF assms(1)] consider
    (same) "tallies s' = tallies s" |
    (rec) src r1 c1 sd where "tallies s' = tallies (recorded ext src r1 c1 sd s)"
    by blast
  then show ?thesis
  proof cases
    case same
    from comboInv_tallies [OF same] tallies_eqD(5) [OF same] assms(2) show ?thesis by simp
  next
    case rec
    from comboInv_tallies [OF rec] tallies_eqD(5) [OF rec] recorded_comboInv [of ext src r1 c1 sd s]
    show ?thesis by simp
  qed
qed

text \<open>C3. For every player, at every point of a session the published max combo is at
  least the score processor's current combo, and it never decreases: a session that starts
  from a sub-set where the published max combo covers the processor's combo (as at the start,
  where both are zero) ends, after any steps, in such a sub-set, with a published max combo
  no smaller than before.\<close>

theorem max_combo_dominates_and_grows:
  assumes "session ext s sts = Inr (s', evs)"
    and "sint (GetCombo (proc ext) (scoreProcessor s)) \<le> int (Combo (score s))"
  shows "sint (GetCombo (proc ext) (scoreProcessor s')) \<le> int (Combo (score s')) \<and>
         Combo (score s) \<le> Combo (score s')"
  using assms
proof (induction sts arbitrary: s evs)
  case Nil
  then show ?case by simp
next
  case (Cons st sts)
  from Cons.prems(1) obtain s1 e1 e2 where
    a: "doStep ext s st = Inr (s1, e1)" and b: "session ext s1 sts = Inr (s', e2)"
    by (auto split: sum.splits prod.splits)
  from doStep_combo [OF a] Cons.prems(2)
  have c: "sint (GetCombo (proc ext) (scoreProcessor s1)) \<le> int (Combo (score s1))"
    "Combo (score s) \<le> Combo (score s1)"
    by (simp_all add: comboInv_def)
  from Cons.IH [OF b c(1)] c(2) show ?case by simp
qed

theorem max_combo_dominates_and_grows_witness:
  "session exampleExt afterMiss
     [Judge exampleRuleSet 2000 exampleSlider 0 0 SliderStart Increase] =
     Inr (afterStart, [HitEvent 0 2000 1 0 0 SliderStart Increase \<lparr>PP = 0, Stars = 0\<rparr> 0]) \<and>
   sint (GetCombo (proc exampleExt) (scoreProcessor afterMiss)) \<le> int (Combo (score afterMiss)) \<and>
   sint (GetCombo (proc exampleExt) (scoreProcessor afterStart)) \<le> int (Combo (score afterStart)) \<and>
   Combo (score afterMiss) \<le> Combo (score afterStart) \<and>
   Combo (score afterStart) = 1"
proof -
  have a: "session exampleExt afterMiss
     [Judge exampleRuleSet 2000 exampleSlider 0 0 SliderStart Increase] =
     Inr (afterStart, [HitEvent 0 2000 1 0 0 SliderStart Increase \<lparr>PP = 0, Stars = 0\<rparr> 0])"
    by (simp add: example_start)
  have b: "sint (GetCombo (proc exampleExt) (scoreProcessor afterMiss)) \<le> int (Combo (score afterMiss))"
    by (simp add: example_defs)
  have c: "Combo (score afterStart) = 1" by (simp add: example_defs)
  from max_combo_dominates_and_grows [OF a b] a b c show ?thesis by simp
qed

subsection \<open>Accuracy\<close>

lemma accInv_range:
  assumes "accInv s"
  shows "0 \<le> Accuracy (score s) \<and> Accuracy (score s) \<le> 100 \<and>
         (numObjects s = 0 \<longrightarrow> Accuracy (score s) = 100)"
proof (cases "numObjects s = 0")
  case True
  with assms show ?thesis by (simp add: accInv_def)
next
  case False
  from assms have "0 \<le> rawScore s" "rawScore s \<le> 300 * int (numObjects s)"
    by (simp_all add: accInv_def)
  then have r: "0 \<le> real_of_int (rawScore s)"
    "real_of_int (rawScore s) \<le> 300 * real (numObjects s)"
    by (simp, metis of_int_le_iff of_int_mult of_int_numeral of_int_of_nat_eq)
  from False have n: "0 < real (numObjects s)" by simp
  from assms False
  have a: "Accuracy (score s) = 100 * real_of_int (rawScore s) / (real (numObjects s) * 300)"
    by (simp add: accInv_def)
  have "0 \<le> Accuracy (score s)" unfolding a using r(1) n by simp
  moreover have "Accuracy (score s) \<le> 100" unfolding a using r(2) n
    by (simp add: field_simps)
  ultimately show ?thesis using False by simp
qed

lemma recorded_accInv:
  assumes "\<forall>r. r AND BaseHitsM > 0 \<longrightarrow> 0 \<le> ScoreValue ext r \<and> ScoreValue ext r \<le> 300"
    and "accInv s"
  shows "accInv (recorded ext src r c sd s)"
  using assms
  by (auto simp: accInv_def recorded_def Let_def scored_fields scored_accuracy
      dest!: spec [where x = "ModifyResult (proc ext) (scoreProcessor s) r src"])

lemma accInv_tallies: "tallies s' = tallies t \<Longrightarrow> accInv s' = accInv t"
  by (simp add: accInv_def tallies_def)

lemma doStep_accInv:
  assumes "\<forall>r. r AND BaseHitsM > 0 \<longrightarrow> 0 \<le> ScoreValue ext r \<and> ScoreValue ext r \<le> 300"
    and "doStep ext s st = Inr (s', evs)" and "accInv s"
  shows "accInv s'"
proof -
  from doStep_tallies [OF assms(2)] consider
    (same) "tallies s' = tallies s" |
    (rec) src r1 c1 sd where "tallies s' = tallies (recorded ext src r1 c1 sd s)"
    by blast
  then show ?thesis
  proof cases
    case same
    from accInv_tallies [OF same] assms(3) show ?thesis by simp
  next
    case rec
    from accInv_tallies [OF rec] recorded_accInv [OF assms(1,3)] show ?thesis by simp
  qed
qed

lemma session_accInv:
  assumes "\<forall>r. r AND BaseHitsM > 0 \<longrightarrow> 0 \<le> ScoreValue ext r \<and> ScoreValue ext r \<le> 300"
  shows "session ext s sts = Inr (s', evs) \<Longrightarrow> accInv s \<Longrightarrow> accInv s'"
proof (induction sts arbitrary: s evs)
  case Nil
  then show ?case by simp
next
  case (Cons st sts)
  from Cons.prems(1) obtain s1 e1 e2 where
    a: "doStep ext s st = Inr (s1, e1)" and b: "session ext s1 sts = Inr (s', e2)"
    by (auto split: sum.splits prod.splits)
  from doStep_accInv [OF assms a Cons.prems(2)] Cons.IH [OF b] show ?case by simp
qed

lemma accInv_NewSubSet: "accInv (NewSubSet p mods h sc)"
  by (simp add: accInv_def NewSubSet_def)

text \<open>C2. For every player, after every judgement recorded through \<open>SendResult\<close> (and after
  any other step of the session) the published accuracy is in the range from 0 to 100, and it
  is exactly 100 when no base-hit object has been judged, the initial state included. The
  score value of a base judgement, which the source files do not hold, is taken to lie between
  0 and 300, the weight of the top tier by which \<open>SendResult\<close> divides.\<close>

theorem accuracy_in_range:
  assumes "\<forall>r. r AND BaseHitsM > 0 \<longrightarrow> 0 \<le> ScoreValue ext r \<and> ScoreValue ext r \<le> 300"
    and "session ext (NewSubSet p mods h sc) sts = Inr (s', evs)"
  shows "0 \<le> Accuracy (score s') \<and> Accuracy (score s') \<le> 100 \<and>
         (numObjects s' = 0 \<longrightarrow> Accuracy (score s') = 100)"
  using session_accInv [OF assms(1) assms(2) accInv_NewSubSet] by (rule accInv_range)

lemma tierValue_range:
  "\<forall>r. r AND BaseHitsM > 0 \<longrightarrow> 0 \<le> ScoreValue exampleExt r \<and> ScoreValue exampleExt r \<le> 300"
  by (simp add: exampleExt_def tierValue_def)

theorem accuracy_in_range_witness:
  "session exampleExt (NewSubSet (examplePlayer 0) 0 exampleHp 0) [] =
     Inr (NewSubSet (examplePlayer 0) 0 exampleHp 0, []) \<and>
   numObjects (NewSubSet (examplePlayer 0) 0 exampleHp (0 :: 64 word)) = 0 \<and>
   Accuracy (score (NewSubSet (examplePlayer 0) 0 exampleHp (0 :: 64 word))) = 100 \<and>
   session exampleExt (NewSubSet (examplePlayer 0) 0 exampleHp 0)
     [Judge exampleRuleSet 1100 exampleCircle 0 0 Miss Reset] =
     Inr (afterMiss, [HitEvent 0 1100 0 0 0 Miss Reset \<lparr>PP = 0, Stars = 0\<rparr> 0]) \<and>
   numObjects afterMiss = 1 \<and>
   0 \<le> Accuracy (score afterMiss) \<and> Accuracy (score afterMiss) \<le> 100"
proof -
  have a: "session exampleExt (NewSubSet (examplePlayer 0) 0 exampleHp 0) [] =
     Inr (NewSubSet (examplePlayer 0) 0 exampleHp 0, [])"
    by simp
  have b: "session exampleExt (NewSubSet (examplePlayer 0) 0 exampleHp 0)
     [Judge exampleRuleSet 1100 exampleCircle 0 0 Miss Reset] =
     Inr (afterMiss, [HitEvent 0 1100 0 0 0 Miss Reset \<lparr>PP = 0, Stars = 0\<rparr> 0])"
    using example_miss by (simp add: exampleSubSet_def)
  have c: "numObjects (NewSubSet (examplePlayer 0) 0 exampleHp (0 :: 64 word)) = 0"
    "numObjects afterMiss = 1"
    by (simp_all add: example_defs)
  from accuracy_in_range [OF tierValue_range a] accuracy_in_range [OF tierValue_range b] a b c
  show ?thesis by simp
qed

subsection \<open>Grade\<close>

lemma scored_tier_counts:
  "Count300 (score (scored ext r c s)) =
     Count300 (score s) + (if r AND BaseHitsM = Hit300 then 1 else 0)"
  "Count50 (score (scored ext r c s)) =
     Count50 (score s) + (if r AND BaseHitsM = Hit50 then 1 else 0)"
  "CountMiss (score (scored ext r c s)) =
     CountMiss (score s) + (if r AND BaseHitsM = Miss then 1 else 0)"
  by (auto simp: scored_def calcPerformance_def grade_def comboAccuracy_def tally_def
      countTier_def Let_def Hit300_def Hit100_def Hit50_def Miss_def)

lemma gradeLadder_explicit:
  "gradeLadder mods c300 c50 cMiss n =
     (if c300 = n then (if mods AND (Hidden OR Flashlight) > 0 then SSH else SS)
      else if n = 0 then A
      else if real c300 / real n > 0.9 \<and> real c50 / real n < 0.01 \<and> cMiss = 0
        then (if mods AND (Hidden OR Flashlight) > 0 then SH else S)
      else if real c300 / real n > 0.8 \<and> cMiss = 0 \<or> real c300 / real n > 0.9 then A
      else if real c300 / real n > 0.7 \<and> cMiss = 0 \<or> real c300 / real n > 0.8 then B
      else if real c300 / real n > 0.6 then C'
      else D)"
  by (simp add: gradeLadder_def fdiv_def Let_def)

lemma recorded_counts:
  "numObjects (recorded ext src r1 c1 sd s) =
     numObjects s +
     (if ModifyResult (proc ext) (scoreProcessor s) r1 src AND BaseHitsM > 0 then 1 else 0)"
  "Count300 (score (recorded ext src r1 c1 sd s)) =
     Count300 (score s) +
     (if ModifyResult (proc ext) (scoreProcessor s) r1 src AND BaseHitsM = Hit300 then 1 else 0)"
  "Count50 (score (recorded ext src r1 c1 sd s)) =
     Count50 (score s) +
     (if ModifyResult (proc ext) (scoreProcessor s) r1 src AND BaseHitsM = Hit50 then 1 else 0)"
  "CountMiss (score (recorded ext src r1 c1 sd s)) =
     CountMiss (score s) +
     (if ModifyResult (proc ext) (scoreProcessor s) r1 src AND BaseHitsM = Miss then 1 else 0)"
  by (simp_all add: recorded_def Let_def scored_fields scored_tier_counts)

text \<open>C8. After every judgement that \<open>SendResult\<close> records, the counts are brought up to
  date (one more judged object for a base judgement, one more 300, 50 or miss for its tier)
  and the player's grade is recomputed by the fixed threshold ladder over the ratio of 300s
  to judged objects: SS exactly when every judged object is a 300; else S when the ratio is
  above 0.9, fewer than one in a hundred are 50s and there is no miss; else A when the ratio
  is above 0.8 without a miss or above 0.9; else B when it is above 0.7 without a miss or
  above 0.8; else C above 0.6; else D. With Hidden or Flashlight active the top grades are
  the H variants, SSH instead of SS and SH instead of S. (With no judged object and a 300
  counted, which no session reaches, the ratio is infinite and the grade A.)\<close>

theorem grade_recomputed_by_ladder:
  assumes "SendResult ext rs s time src x y result comboResult = Inr (s', evs)"
    and "result \<noteq> Ignore" and "result \<noteq> PositionalMiss"
  shows "(let b = ModifyResult (proc ext) (scoreProcessor s)
                    (fst (sdpfOverride (diffMods (player s)) result comboResult (sdpfFail s))) src
                  AND BaseHitsM
          in numObjects s' = numObjects s + (if b > 0 then 1 else 0) \<and>
             Count300 (score s') = Count300 (score s) + (if b = Hit300 then 1 else 0) \<and>
             Count50 (score s') = Count50 (score s) + (if b = Hit50 then 1 else 0) \<and>
             CountMiss (score s') = CountMiss (score s) + (if b = Miss then 1 else 0)) \<and>
         (let c300 = Count300 (score s'); c50 = Count50 (score s'); cMiss = CountMiss (score s');
              n = numObjects s'; ratio = real c300 / real n;
              h = (diffMods (player s') AND (Hidden OR Flashlight) > 0)
          in ScoreGrade (score s') =
               (if c300 = n then (if h then SSH else SS)
                else if n = 0 then A
                else if ratio > 0.9 \<and> real c50 / real n < 0.01 \<and> cMiss = 0
                  then (if h then SH else S)
                else if ratio > 0.8 \<and> cMiss = 0 \<or> ratio > 0.9 then A
                else if ratio > 0.7 \<and> cMiss = 0 \<or> ratio > 0.8 then B
                else if ratio > 0.6 then C'
                else D)) \<and>
         (ScoreGrade (score s') \<in> {SS, SSH} \<longleftrightarrow> Count300 (score s') = numObjects s')"
proof -
  from assms obtain r1 c1 sd where
    ov: "sdpfOverride (diffMods (player s)) result comboResult (sdpfFail s) = (r1, c1, sd)" and
    t: "tallies s' = tallies (recorded ext src r1 c1 sd s)"
    by (auto elim: SendResult_tallies)
  from ov have r1: "fst (sdpfOverride (diffMods (player s)) result comboResult (sdpfFail s)) = r1"
    by simp
  have "ScoreGrade (score (recorded ext src r1 c1 sd s)) =
          gradeLadder (diffMods (player (recorded ext src r1 c1 sd s)))
            (Count300 (score (recorded ext src r1 c1 sd s)))
            (Count50 (score (recorded ext src r1 c1 sd s)))
            (CountMiss (score (recorded ext src r1 c1 sd s)))
            (numObjects (recorded ext src r1 c1 sd s))"
    by (simp add: recorded_def Let_def scored_grade scored_fields)
  with tallies_eqD [OF t]
  have g: "ScoreGrade (score s') =
           gradeLadder (diffMods (player s')) (Count300 (score s')) (Count50 (score s'))
             (CountMiss (score s')) (numObjects s')"
    by simp
  show ?thesis
  proof (intro conjI)
    show "let b = ModifyResult (proc ext) (scoreProcessor s)
                    (fst (sdpfOverride (diffMods (player s)) result comboResult (sdpfFail s))) src
                  AND BaseHitsM
          in numObjects s' = numObjects s + (if b > 0 then 1 else 0) \<and>
             Count300 (score s') = Count300 (score s) + (if b = Hit300 then 1 else 0) \<and>
             Count50 (score s') = Count50 (score s) + (if b = Hit50 then 1 else 0) \<and>
             CountMiss (score s') = CountMiss (score s) + (if b = Miss then 1 else 0)"
      unfolding Let_def r1 tallies_eqD(4,8,10,11) [OF t] recorded_counts by simp
    show "let c300 = Count300 (score s'); c50 = Count50 (score s'); cMiss = CountMiss (score s');
              n = numObjects s'; ratio = real c300 / real n;
              h = (diffMods (player s') AND (Hidden OR Flashlight) > 0)
          in ScoreGrade (score s') =
               (if c300 = n then (if h then SSH else SS)
                else if n = 0 then A
                else if ratio > 0.9 \<and> real c50 / real n < 0.01 \<and> cMiss = 0
                  then (if h then SH else S)
                else if ratio > 0.8 \<and> cMiss = 0 \<or> ratio > 0.9 then A
                else if ratio > 0.7 \<and> cMiss = 0 \<or> ratio > 0.8 then B
                else if ratio > 0.6 then C'
                else D)"
      unfolding Let_def g by (rule gradeLadder_explicit)
    show "ScoreGrade (score s') \<in> {SS, SSH} \<longleftrightarrow> Count300 (score s') = numObjects s'"
      unfolding g gradeLadder_explicit by simp
  qed
qed

theorem grade_recomputed_by_ladder_witness:
  "SendResult exampleExt exampleRuleSet (exampleSubSet Hidden) 1000 exampleCircle 0 0 Hit300 Increase =
     Inr (afterHit300, [HitEvent 0 1000 0 0 0 Hit300 Increase \<lparr>PP = 0, Stars = 0\<rparr> 0]) \<and>
   diffMods (player afterHit300) AND (Hidden OR Flashlight) > 0 \<and>
   numObjects afterHit300 = 1 \<and> Count300 (score afterHit300) = 1 \<and>
   ScoreGrade (score afterHit300) = SSH \<and>
   SendResult exampleExt exampleRuleSet (exampleSubSet 0) 1100 exampleCircle 0 0 Miss Reset =
     Inr (afterMiss, [HitEvent 0 1100 0 0 0 Miss Reset \<lparr>PP = 0, Stars = 0\<rparr> 0]) \<and>
   numObjects afterMiss = 1 \<and> Count300 (score afterMiss) = 0 \<and> CountMiss (score afterMiss) = 1 \<and>
   ScoreGrade (score afterMiss) = D"
proof -
  have n: "Hit300 \<noteq> Ignore" "Hit300 \<noteq> PositionalMiss" "Miss \<noteq> Ignore" "Miss \<noteq> PositionalMiss"
    by (simp_all add: HitResult_defs)
  have m: "diffMods (player afterHit300) AND (Hidden OR Flashlight) > 0"
    by (simp add: example_defs Modifier_defs)
  note start_defs = exampleExt_def comboCounter_def exampleSubSet_def NewSubSet_def
    examplePlayer_def exampleCircle_def sdpfOverride_def Active_def
  from grade_recomputed_by_ladder [OF example_hit300 n(1,2)]
  have a: "numObjects afterHit300 = 1 \<and> Count300 (score afterHit300) = 1 \<and>
    ScoreGrade (score afterHit300) = SSH"
    using m by (simp add: Let_def start_defs HitResult_defs Modifier_defs)
  from grade_recomputed_by_ladder [OF example_miss n(3,4)]
  have b: "numObjects afterMiss = 1 \<and> Count300 (score afterMiss) = 0 \<and>
    CountMiss (score afterMiss) = 1 \<and> ScoreGrade (score afterMiss) = D"
    by (simp add: Let_def start_defs HitResult_defs Modifier_defs)
  from a b m example_hit300 example_miss show ?thesis by simp
qed

subsection \<open>The override under SuddenDeath and Perfect\<close>

lemma Active_Perfect: "Active m Perfect \<Longrightarrow> Active m (SuddenDeath OR Perfect)"
proof -
  assume "Active m Perfect"
  then have p: "0 < m AND Perfect" by (simp add: Active_def)
  have "0 \<le> m AND SuddenDeath" by (simp add: SuddenDeath_def)
  then have "m AND Perfect \<le> (m AND Perfect) OR (m AND SuddenDeath)" by (rule or_greater_eq)
  also have "\<dots> = m AND (SuddenDeath OR Perfect)"
    by (simp add: bit.conj_disj_distrib ac_simps)
  finally show ?thesis using p by (simp add: Active_def)
qed

lemma sdpfOverride_adjusted:
  assumes "(Active mods (SuddenDeath OR Perfect) \<and> comboResult = Reset) \<or>
           (Active mods Perfect \<and> result AND BaseHitsM > 0 \<and> result AND BaseHitsM \<noteq> Hit300)"
    and "result AND BaseHitsM > 0 \<or> result AND SliderHits > 0 \<or> result = SliderMiss"
  shows "sdpfOverride mods result comboResult sd = (adjusted result, Reset, True)"
    and "sdpfOverride mods (adjusted result) Reset sd' = (adjusted result, Reset, True)"
proof -
  have sm: "SliderMiss AND BaseHitsM = 0" "SliderMiss AND SliderHits = 0"
    "Miss AND BaseHitsM = Miss" "0 < Miss"
    by (simp_all add: HitResult_defs)
  from assms(1) have act: "Active mods (SuddenDeath OR Perfect)" by (auto dest: Active_Perfect)
  from assms show "sdpfOverride mods result comboResult sd = (adjusted result, Reset, True)"
    by (auto simp: sdpfOverride_def adjusted_def sm)
  from act show "sdpfOverride mods (adjusted result) Reset sd' = (adjusted result, Reset, True)"
    by (auto simp: sdpfOverride_def adjusted_def sm)
qed

lemma adjusted_recorded: "adjusted r \<noteq> Ignore" "adjusted r \<noteq> PositionalMiss"
  by (simp_all add: adjusted_def HitResult_defs)

lemma SendResult_same_override:
  assumes "sdpfOverride (diffMods (player s)) r1 c1 (sdpfFail s) =
           sdpfOverride (diffMods (player s)) r2 c2 (sdpfFail s)"
    and "r1 \<noteq> Ignore" "r1 \<noteq> PositionalMiss" "r2 \<noteq> Ignore" "r2 \<noteq> PositionalMiss"
  shows "SendResult ext rs s time src x y r1 c1 = SendResult ext rs s time src x y r2 c2"
  using assms by (simp add: SendResult_def)

lemma vitals_scored: "vitals (scored ext r c s) = vitals s"
  by (simp add: vitals_def scored_def calcPerformance_def grade_def comboAccuracy_def tally_def
      Let_def)

lemma vitals_recorded: "vitals (recorded ext src r c sd s) = (hp s, sd)"
  by (simp add: recorded_def Let_def vitals_scored) (simp add: vitals_def)

lemma vitals_perfectCombo: "perfectCombo ext rs s = Inr s' \<Longrightarrow> vitals s' = vitals s"
  by (auto simp: perfectCombo_def Let_def vitals_def split: option.splits)

lemma vitals_katuBad: "vitals (katuBad r s) = vitals s"
  by (simp add: katuBad_def vitals_def)

lemma vitals_comboEnd: "comboEnd rs n r s = Inr (r', s') \<Longrightarrow> vitals s' = vitals s"
  by (auto simp: comboEnd_def Let_def vitals_def
      split: option.splits sum.splits if_splits bool.splits prod.splits)

lemma health_forced:
  assumes "sdpfFail s" and "Health (hp s) \<le> MaxHp"
  shows "Health (hp (fst (health rs r s))) = 0"
  using assms
  by (simp add: health_def Increase_hp_def hp_Increase_def failInternal_def Let_def ClampF_def
      MaxHp_def)

lemma health_sdpf: "sdpfFail s \<Longrightarrow> sdpfFail (fst (health rs r s))"
  by (simp add: health_def Increase_hp_def hp_Increase_def failInternal_def Let_def)

lemma SendResult_vitals:
  assumes "SendResult ext rs s time src x y result comboResult = Inr (s', evs)"
    and "result \<noteq> Ignore" and "result \<noteq> PositionalMiss"
  obtains r1 c1 sd r3 s6 where
    "sdpfOverride (diffMods (player s)) result comboResult (sdpfFail s) = (r1, c1, sd)"
    "vitals s6 = (hp s, sd)" "s' = fst (health rs r3 s6)"
proof -
  from assms obtain r1 c1 sd r2 s4 s5 r3 s6 evh where d:
    "sdpfOverride (diffMods (player s)) result comboResult (sdpfFail s) = (r1, c1, sd)"
    "s4 = recorded ext src r1 c1 sd s"
    "perfectCombo ext rs s4 = Inr s5"
    "comboEnd rs (Number src) r2 (katuBad r2 s5) = Inr (r3, s6)"
    "health rs r3 s6 = (s', evh)"
    by (rule SendResult_decomp)
  have "vitals s6 = vitals s5" using vitals_comboEnd [OF d(4)] by (simp add: vitals_katuBad)
  also have "\<dots> = vitals s4" using vitals_perfectCombo [OF d(3)] .
  finally have "vitals s6 = (hp s, sd)" using d(2) by (simp add: vitals_recorded)
  moreover from d(5) have "s' = fst (health rs r3 s6)" by simp
  ultimately show ?thesis using d(1) by (intro that)
qed

text \<open>C5, as the code has it. When \<open>SendResult\<close> is called for a player with Perfect
  active and a base judgement below the top tier, or with SuddenDeath or Perfect active and a
  combo result of Reset, and the result is a base judgement or a slider part, the judgement is
  downgraded to Miss (to SliderMiss for a slider part) with combo result Reset before the
  score processor is updated. The score, combo and tallies and the listener work on the
  adjusted judgement: the call returns what the call with the adjusted judgement and Reset
  returns, and the score processor has been given the adjusted judgement (through its own
  \<open>ModifyResult\<close>) and Reset. The health update does not use the judgement: \<open>sdpfFail\<close>
  is set and the update is the forced drain, which leaves HP at zero.\<close>

theorem override_before_recording:
  assumes "(Active (diffMods (player s)) (SuddenDeath OR Perfect) \<and> comboResult = Reset) \<or>
           (Active (diffMods (player s)) Perfect \<and>
            result AND BaseHitsM > 0 \<and> result AND BaseHitsM \<noteq> Hit300)"
    and "result \<noteq> Ignore" and "result \<noteq> PositionalMiss"
    and "result AND BaseHitsM > 0 \<or> result AND SliderHits > 0 \<or> result = SliderMiss"
    and "SendResult ext rs s time src x y result comboResult = Inr (s', evs)"
    and "Health (hp s) \<le> MaxHp"
  shows "SendResult ext rs s time src x y
           (if result AND BaseHitsM > 0 then Miss else SliderMiss) Reset = Inr (s', evs) \<and>
         scoreProcessor s' =
           AddResult (proc ext) (scoreProcessor s)
             (ModifyResult (proc ext) (scoreProcessor s)
                (if result AND BaseHitsM > 0 then Miss else SliderMiss) src) Reset \<and>
         sdpfFail s' \<and> Health (hp s') = 0"
proof (intro conjI)
  have "SendResult ext rs s time src x y result comboResult =
        SendResult ext rs s time src x y (adjusted result) Reset"
    using assms(2,3) sdpfOverride_adjusted [OF assms(1) assms(4)]
    by (intro SendResult_same_override) (simp_all add: adjusted_recorded)
  with assms(5)
  show "SendResult ext rs s time src x y
           (if result AND BaseHitsM > 0 then Miss else SliderMiss) Reset = Inr (s', evs)"
    by (simp add: adjusted_def)
  from assms(2,3,5) obtain r1 c1 sd where
    ov: "sdpfOverride (diffMods (player s)) result comboResult (sdpfFail s) = (r1, c1, sd)" and
    t: "tallies s' = tallies (recorded ext src r1 c1 sd s)"
    by (auto elim: SendResult_tallies)
  from ov sdpfOverride_adjusted(1) [OF assms(1) assms(4)]
  have "r1 = adjusted result" "c1 = Reset" by simp_all
  with tallies_eqD(1) [OF t]
  show "scoreProcessor s' =
           AddResult (proc ext) (scoreProcessor s)
             (ModifyResult (proc ext) (scoreProcessor s)
                (if result AND BaseHitsM > 0 then Miss else SliderMiss) src) Reset"
    by (simp add: recorded_def Let_def scored_fields adjusted_def)
  from assms(5,2,3) obtain r1' c1' sd' r3 s6 where
    ov': "sdpfOverride (diffMods (player s)) result comboResult (sdpfFail s) = (r1', c1', sd')" and
    v: "vitals s6 = (hp s, sd')" and h: "s' = fst (health rs r3 s6)"
    by (rule SendResult_vitals)
  from ov' sdpfOverride_adjusted(1) [OF assms(1) assms(4)] have "sd'" by simp
  with v have s6: "sdpfFail s6" "hp s6 = hp s" by (simp_all add: vitals_def)
  from s6(1) h show "sdpfFail s'" by (simp add: health_sdpf)
  from s6 h assms(6) show "Health (hp s') = 0" by (simp add: health_forced)
qed

theorem override_before_recording_witness:
  "Active (diffMods (player (exampleSubSet Perfect))) Perfect \<and>
   Hit100 AND BaseHitsM > 0 \<and> Hit100 AND BaseHitsM \<noteq> Hit300 \<and>
   SendResult exampleExt exampleRuleSet (exampleSubSet Perfect) 1000 exampleCircle 0 0 Hit100 Increase =
     Inr (afterPerfect, [FailEvent 0, HitEvent 0 1000 0 0 0 Miss Reset \<lparr>PP = 0, Stars = 0\<rparr> 0]) \<and>
   SendResult exampleExt exampleRuleSet (exampleSubSet Perfect) 1000 exampleCircle 0 0 Miss Reset =
     Inr (afterPerfect, [FailEvent 0, HitEvent 0 1000 0 0 0 Miss Reset \<lparr>PP = 0, Stars = 0\<rparr> 0]) \<and>
   scoreProcessor afterPerfect = 0 \<and> sdpfFail afterPerfect \<and> Health (hp afterPerfect) = 0"
proof -
  have c: "Active (diffMods (player (exampleSubSet Perfect))) Perfect"
    "Hit100 AND BaseHitsM > 0" "Hit100 AND BaseHitsM \<noteq> Hit300"
    by (simp_all add: example_defs Active_def Modifier_defs HitResult_defs)
  then have 1: "(Active (diffMods (player (exampleSubSet Perfect))) (SuddenDeath OR Perfect) \<and>
            Increase = Reset) \<or>
           (Active (diffMods (player (exampleSubSet Perfect))) Perfect \<and>
            Hit100 AND BaseHitsM > 0 \<and> Hit100 AND BaseHitsM \<noteq> Hit300)"
    by simp
  have 2: "Hit100 \<noteq> Ignore" "Hit100 \<noteq> PositionalMiss" by (simp_all add: HitResult_defs)
  from c have 4: "Hit100 AND BaseHitsM > 0 \<or> Hit100 AND SliderHits > 0 \<or> Hit100 = SliderMiss"
    by simp
  have 6: "Health (hp (exampleSubSet Perfect)) \<le> MaxHp" by (simp add: example_defs)
  from override_before_recording [OF 1 2 4 example_perfect 6] c example_perfect
  show ?thesis by (simp add: example_defs)
qed

lemma example_spinner:
  "SendResult exampleExt spinnerRuleSet (exampleSubSet SuddenDeath) 4500 exampleSpinner 0 0
     SpinnerPoints Reset =
     Inr (afterSpinner,
          [FailEvent 0, HitEvent 0 4500 2 0 0 SpinnerPoints Reset \<lparr>PP = 0, Stars = 0\<rparr> 0])"
proof -
  let ?s4 = "(exampleSubSet SuddenDeath)
       \<lparr>score := (score (exampleSubSet SuddenDeath))\<lparr>ScoreGrade := SS, CountSB := 1\<rparr>,
        sdpfFail := True\<rparr>"
  have 1: "SpinnerPoints \<noteq> Ignore" "SpinnerPoints \<noteq> PositionalMiss"
    by (simp_all add: HitResult_defs)
  have 2: "sdpfOverride (diffMods (player (exampleSubSet SuddenDeath))) SpinnerPoints Reset
             (sdpfFail (exampleSubSet SuddenDeath)) = (SpinnerPoints, Reset, True)"
    by (simp add: sdpfOverride_def example_defs Active_def Modifier_defs HitResult_defs)
  have 3: "ModifyResult (proc exampleExt) (scoreProcessor (exampleSubSet SuddenDeath))
             SpinnerPoints exampleSpinner = SpinnerPoints"
    by (simp add: example_defs)
  have 4: "recorded exampleExt exampleSpinner SpinnerPoints Reset True (exampleSubSet SuddenDeath) = ?s4"
    by (simp add: recorded_def scored_def calcPerformance_def grade_def gradeLadder_def fdiv_def
      comboAccuracy_def tally_def countTier_def Let_def example_defs HitResult_defs Modifier_defs
      uint_of_int_def)
  have 5: "perfectCombo exampleExt spinnerRuleSet ?s4 = Inr ?s4"
    by (simp add: perfectCombo_def index_def uint_of_int_def example_defs spinner_defs)
  have 6: "comboEnd spinnerRuleSet (Number exampleSpinner) SpinnerPoints
             (katuBad SpinnerPoints ?s4) = Inr (SpinnerPoints, ?s4)"
    by (simp add: comboEnd_def katuBad_def example_defs spinner_defs HitResult_defs)
  have 7: "health spinnerRuleSet SpinnerPoints ?s4 = (afterSpinner, [FailEvent 0])"
    by (simp add: health_def Increase_hp_def hp_Increase_def failInternal_def ClampF_def
        MaxHp_def CheckModActive_def Active_def example_defs spinner_defs HitResult_defs
        Modifier_defs)
  from SendResult_compose [OF 1 2 3 4 5 6 7, of 4500 0 0]
  show ?thesis by (simp add: example_defs spinner_defs)
qed

text \<open>C5 as it is claimed fails on two counts. Under Perfect a 100 on the circle is recorded
  as a Miss, but the health update does not use the Miss: it leaves HP at 0, where the
  health processor given the Miss would leave 180. And under SuddenDeath a spinner part sent
  with Reset is neither a base judgement nor a slider hit: it is recorded, and handed to the
  listener, as the spinner part it was.\<close>

theorem override_health_and_spinner_part:
  "SendResult exampleExt exampleRuleSet (exampleSubSet Perfect) 1000 exampleCircle 0 0 Hit100 Increase =
     Inr (afterPerfect, [FailEvent 0, HitEvent 0 1000 0 0 0 Miss Reset \<lparr>PP = 0, Stars = 0\<rparr> 0]) \<and>
   Health (hp afterPerfect) = 0 \<and>
   Health (fst (hp_AddResult (hp (exampleSubSet Perfect)) Miss)) = 180 \<and>
   Active (diffMods (player (exampleSubSet SuddenDeath))) (SuddenDeath OR Perfect) \<and>
   SendResult exampleExt spinnerRuleSet (exampleSubSet SuddenDeath) 4500 exampleSpinner 0 0
     SpinnerPoints Reset =
     Inr (afterSpinner,
          [FailEvent 0, HitEvent 0 4500 2 0 0 SpinnerPoints Reset \<lparr>PP = 0, Stars = 0\<rparr> 0]) \<and>
   SpinnerPoints \<noteq> Miss \<and> SpinnerPoints \<noteq> SliderMiss"
  by (simp add: example_perfect example_spinner)
     (simp add: example_defs hp_AddResult_def hp_Increase_def ClampF_def MaxHp_def Active_def
        HitResult_defs Modifier_defs)

subsection \<open>The perfect-combo flag\<close>

lemma flag_fire:
  "score (fst (if fire then failInternal rs (s\<lparr>hp := h\<rparr>) else (s\<lparr>hp := h\<rparr>, []))) = score s"
  by (simp add: failInternal_def)

lemma score_health: "score (fst (health rs r s)) = score s"
  using flag_fire [where fire = "snd (hp_Increase (hp s) a b)" and rs = rs and s = s
      and h = "fst (hp_Increase (hp s) a b)" for a b]
  by (simp add: health_def AddResult_hp_eq Increase_hp_def split_beta Let_def)

lemma flag_katuBad: "PerfectCombo (score (katuBad r s)) = PerfectCombo (score s)"
  by (simp add: katuBad_def)

lemma flag_comboEnd:
  "comboEnd rs n r s = Inr (r', s') \<Longrightarrow> PerfectCombo (score s') = PerfectCombo (score s)"
  by (auto simp: comboEnd_def Let_def
      split: option.splits sum.splits if_splits bool.splits prod.splits)

lemma flag_perfectCombo:
  assumes "perfectCombo ext rs s = Inr s'"
  shows "\<exists>diff. index (oppDiffs rs (GetDiffMaskedMods ext (diffMods (player s))))
                   (int (max 1 (numObjects s) - 1)) = Some diff \<and>
                PerfectCombo (score s') = (uint_of_int (MaxCombo diff) = Combo (score s))"
  using assms by (auto simp: perfectCombo_def Let_def split: option.splits)

text \<open>C6, as the code has it. At every judgement that \<open>SendResult\<close> records, the published
  perfect-combo flag is recomputed: it is true exactly when the max combo in the difficulty
  attributes of the last judged object (at index \<open>max(1, numObjects) - 1\<close>) equals the
  published max combo. Whether a Miss was recorded before is not looked at.\<close>

theorem perfect_combo_recomputed:
  assumes "SendResult ext rs s time src x y result comboResult = Inr (s', evs)"
    and "result \<noteq> Ignore" and "result \<noteq> PositionalMiss"
  shows "\<exists>diff. index (oppDiffs rs (GetDiffMaskedMods ext (diffMods (player s'))))
                   (int (max 1 (numObjects s') - 1)) = Some diff \<and>
                PerfectCombo (score s') = (uint_of_int (MaxCombo diff) = Combo (score s'))"
proof -
  from assms obtain r1 c1 sd r2 s4 s5 r3 s6 evh where d:
    "s4 = recorded ext src r1 c1 sd s"
    "perfectCombo ext rs s4 = Inr s5"
    "comboEnd rs (Number src) r2 (katuBad r2 s5) = Inr (r3, s6)"
    "health rs r3 s6 = (s', evh)"
    by (rule SendResult_decomp)
  have t: "tallies s' = tallies s4"
  proof -
    have "tallies s' = tallies s6" using tallies_health [of rs r3 s6] d(4) by simp
    also have "\<dots> = tallies s5" using tallies_comboEnd [OF d(3)] by (simp add: tallies_katuBad)
    also have "\<dots> = tallies s4" using tallies_perfectCombo [OF d(2)] .
    finally show ?thesis .
  qed
  have "PerfectCombo (score s') = PerfectCombo (score s6)"
    using score_health [of rs r3 s6] d(4) by simp
  also have "\<dots> = PerfectCombo (score s5)"
    using flag_comboEnd [OF d(3)] by (simp add: flag_katuBad)
  finally have f: "PerfectCombo (score s') = PerfectCombo (score s5)" .
  from flag_perfectCombo [OF d(2)] f tallies_eqD(2,4,5) [OF t] show ?thesis by simp
qed

theorem perfect_combo_recomputed_witness:
  "SendResult exampleExt exampleRuleSet (exampleSubSet 0) 1100 exampleCircle 0 0 Miss Reset =
     Inr (afterMiss, [HitEvent 0 1100 0 0 0 Miss Reset \<lparr>PP = 0, Stars = 0\<rparr> 0]) \<and>
   index (oppDiffs exampleRuleSet (GetDiffMaskedMods exampleExt (diffMods (player afterMiss))))
     (int (max 1 (numObjects afterMiss) - 1)) = Some \<lparr>MaxCombo = 1\<rparr> \<and>
   Combo (score afterMiss) = 0 \<and>
   PerfectCombo (score afterMiss) = (uint_of_int 1 = Combo (score afterMiss))"
proof -
  have n: "Miss \<noteq> Ignore" "Miss \<noteq> PositionalMiss" by (simp_all add: HitResult_defs)
  have i: "index (oppDiffs exampleRuleSet (GetDiffMaskedMods exampleExt (diffMods (player afterMiss))))
     (int (max 1 (numObjects afterMiss) - 1)) = Some \<lparr>MaxCombo = 1\<rparr>"
    "Combo (score afterMiss) = 0"
    by (simp_all add: example_defs index_def)
  from perfect_combo_recomputed [OF example_miss n] i example_miss show ?thesis
    by auto
qed

text \<open>C6 as it is claimed fails: after the Miss on the circle the flag is false; the hit on
  the slider's head then raises the published max combo to 1, the max combo of the map up to
  the circle, and the flag is true again although a Miss is recorded.\<close>

theorem perfect_combo_returns_after_miss:
  "session exampleExt (exampleSubSet 0)
     [Judge exampleRuleSet 1100 exampleCircle 0 0 Miss Reset] =
     Inr (afterMiss, [HitEvent 0 1100 0 0 0 Miss Reset \<lparr>PP = 0, Stars = 0\<rparr> 0]) \<and>
   CountMiss (score afterMiss) = 1 \<and> \<not> PerfectCombo (score afterMiss) \<and>
   session exampleExt afterMiss
     [Judge exampleRuleSet 2000 exampleSlider 0 0 SliderStart Increase] =
     Inr (afterStart, [HitEvent 0 2000 1 0 0 SliderStart Increase \<lparr>PP = 0, Stars = 0\<rparr> 0]) \<and>
   CountMiss (score afterStart) = 1 \<and> PerfectCombo (score afterStart)"
  by (simp add: example_miss example_start) (simp add: example_defs)

subsection \<open>Click routing\<close>

lemma shakeScan_passes:
  assumes "shakeScan hos c object (pre @ g # post) = Inr False"
    and "\<forall>h \<in> set pre. IsHit h c \<or> Number h \<noteq> Number object"
    and "\<not> IsHit g c" and "Number g \<noteq> Number object"
  shows "\<exists>gObj oObj. index hos (Number g) = Some gObj \<and> index hos (Number object) = Some oObj \<and>
           StartTime oObj \<le> EndTime gObj + Tolerance2B"
  using assms
proof (induction pre)
  case Nil
  then show ?case by (auto split: option.splits if_splits)
next
  case (Cons h pre)
  from Cons.prems have "shakeScan hos c object (pre @ g # post) = Inr False"
    by (auto split: option.splits if_splits)
  with Cons.IH Cons.prems show ?case by simp
qed

lemma CanBeHit_Click_scan:
  assumes "\<not> IsAutoplay p" and "\<not> IsPlayer p"
    and "CanBeHit hittable rs time object p = Inr Click"
  shows "shakeScan (HitObjects rs) (cursor p) object (processed rs) = Inr False"
  using assms
  by (auto simp: CanBeHit_def Let_def split: sum.splits bool.splits option.splits if_splits)

text \<open>C7, as the code has it. For a replay cursor (neither autoplay nor player): let \<open>g\<close> be
  an unresolved object of \<open>processed\<close> other than the clicked one, which the scan reaches
  before it reaches the clicked object unresolved. The click is accepted only if the END time
  of \<open>g\<close> plus the 2B tolerance is not before the START time of the clicked object; and when
  it is before, the click is rejected as a shake, or ignored by the rule for stacks.\<close>

theorem click_accepted_only_within_tolerance:
  assumes "\<not> IsAutoplay p" and "\<not> IsPlayer p"
    and "CanBeHit hittable rs time object p = Inr a"
    and "processed rs = pre @ g # post"
    and "\<forall>h \<in> set pre. IsHit h (cursor p) \<or> Number h \<noteq> Number object"
    and "\<not> IsHit g (cursor p)" and "Number g \<noteq> Number object"
  shows "(a = Click \<longrightarrow>
            (\<exists>gObj oObj. index (HitObjects rs) (Number g) = Some gObj \<and>
               index (HitObjects rs) (Number object) = Some oObj \<and>
               StartTime oObj \<le> EndTime gObj + Tolerance2B)) \<and>
         (\<forall>gObj oObj. index (HitObjects rs) (Number g) = Some gObj \<and>
            index (HitObjects rs) (Number object) = Some oObj \<and>
            EndTime gObj + Tolerance2B < StartTime oObj \<longrightarrow> a = Shake \<or> a = Ignored)"
proof -
  have click: "\<exists>gObj oObj. index (HitObjects rs) (Number g) = Some gObj \<and>
               index (HitObjects rs) (Number object) = Some oObj \<and>
               StartTime oObj \<le> EndTime gObj + Tolerance2B" if "a = Click"
  proof -
    from that assms(1-3)
    have "shakeScan (HitObjects rs) (cursor p) object (processed rs) = Inr False"
      by (simp add: CanBeHit_Click_scan)
    with assms(4) have "shakeScan (HitObjects rs) (cursor p) object (pre @ g # post) = Inr False"
      by simp
    from shakeScan_passes [OF this assms(5-7)] show ?thesis .
  qed
  show ?thesis
  proof (intro conjI allI impI)
    assume "a = Click"
    then show "\<exists>gObj oObj. index (HitObjects rs) (Number g) = Some gObj \<and>
               index (HitObjects rs) (Number object) = Some oObj \<and>
               StartTime oObj \<le> EndTime gObj + Tolerance2B"
      by (rule click)
  next
    fix gObj oObj
    assume far: "index (HitObjects rs) (Number g) = Some gObj \<and>
            index (HitObjects rs) (Number object) = Some oObj \<and>
            EndTime gObj + Tolerance2B < StartTime oObj"
    show "a = Shake \<or> a = Ignored"
    proof (cases a)
      case Click
      from click [OF Click] far show ?thesis by auto
    qed simp_all
  qed
qed

lemma overlap_click:
  "CanBeHit 300 overlapRuleSet 2500 overlapCircle (examplePlayer 0) = Inr Click"
  by (simp add: CanBeHit_def inRange_def index_def int64_of_float_def CheckModActive_def
      Active_def Tolerance2B_def Modifier_defs example_defs)

theorem click_accepted_only_within_tolerance_witness:
  "CanBeHit 300 overlapRuleSet 2500 overlapCircle (examplePlayer 0) = Inr Click \<and>
   processed overlapRuleSet = [] @ exampleSlider # [overlapCircle] \<and>
   index (HitObjects overlapRuleSet) (Number exampleSlider) =
     Some \<lparr>StartTime = 2000, EndTime = 3000, NewCombo = False, StackIndex = (\<lambda>m. 0),
           GetType = SLIDER\<rparr> \<and>
   index (HitObjects overlapRuleSet) (Number overlapCircle) =
     Some \<lparr>StartTime = 2500, EndTime = 2500, NewCombo = False, StackIndex = (\<lambda>m. 0),
           GetType = CIRCLE\<rparr> \<and>
   (2500 :: real) \<le> 3000 + Tolerance2B"
proof -
  have 1: "\<not> IsAutoplay (examplePlayer 0)" "\<not> IsPlayer (examplePlayer 0)"
    by (simp_all add: example_defs)
  have 4: "processed overlapRuleSet = [] @ exampleSlider # [overlapCircle]"
    by (simp add: example_defs)
  have 5: "\<forall>h \<in> set []. IsHit h (cursor (examplePlayer 0)) \<or> Number h \<noteq> Number overlapCircle"
    by simp
  have 6: "\<not> IsHit exampleSlider (cursor (examplePlayer 0))"
    "Number exampleSlider \<noteq> Number overlapCircle"
    by (simp_all add: example_defs)
  have i: "index (HitObjects overlapRuleSet) (Number exampleSlider) =
     Some \<lparr>StartTime = 2000, EndTime = 3000, NewCombo = False, StackIndex = (\<lambda>m. 0),
           GetType = SLIDER\<rparr>"
    "index (HitObjects overlapRuleSet) (Number overlapCircle) =
     Some \<lparr>StartTime = 2500, EndTime = 2500, NewCombo = False, StackIndex = (\<lambda>m. 0),
           GetType = CIRCLE\<rparr>"
    by (simp_all add: index_def example_defs)
  from click_accepted_only_within_tolerance [OF 1 overlap_click 4 5 6] i 4 overlap_click
  show ?thesis by (simp add: Tolerance2B_def)
qed

text \<open>C7 as it is claimed fails: the replay cursor's click at 2500 ms on the circle that
  starts at 2500 ms is accepted while the slider that starts at 2000 ms and ends at 3000 ms is
  unresolved before it in \<open>processed\<close>; the two start times are 500 ms apart.\<close>

theorem click_accepted_beyond_start_tolerance:
  "CanBeHit 300 overlapRuleSet 2500 overlapCircle (examplePlayer 0) = Inr Click \<and>
   processed overlapRuleSet = [exampleSlider, overlapCircle] \<and>
   \<not> IsHit exampleSlider (cursor (examplePlayer 0)) \<and>
   map StartTime (HitObjects overlapRuleSet) = [1000, 2000, 2500] \<and>
   Number exampleSlider = 1 \<and> Number overlapCircle = 2 \<and>
   \<bar>(2500 :: real) - 2000\<bar> > Tolerance2B"
  by (simp add: overlap_click) (simp add: example_defs Tolerance2B_def)

subsection \<open>The tick\<close>
















end
